theory Spec2Isabelle
  imports Main "HOL-Library.Sublist"
begin

section \<open>Python values\<close>

text \<open>
  The scripts handle JSON documents decoded by the API client: \<open>None\<close>, booleans,
  numbers, strings, lists and dicts.  A dict is an association list in insertion order
  (the order Python iterates it in); a decoded dict has no key twice.  JSON numbers are
  the integers here.
\<close>

datatype json = JNull | JBool bool | JNum int | JStr string
  | JList "json list" | JDict "(string \<times> json) list"

datatype py_error =
  IndexError | KeyError | TypeError | AttributeError | OSError | CsvError | AssertionError

type_synonym row = "(string \<times> json) list"

text \<open>Python's \<open>==\<close>: \<open>True == 1\<close>, and dicts are equal whatever their order.\<close>

fun py_eq :: "json \<Rightarrow> json \<Rightarrow> bool"
  and py_eq_list :: "json list \<Rightarrow> json list \<Rightarrow> bool"
  and py_dict_sub :: "(string \<times> json) list \<Rightarrow> (string \<times> json) list \<Rightarrow> bool"
where
  "py_eq JNull b = (case b of JNull \<Rightarrow> True | _ \<Rightarrow> False)"
| "py_eq (JBool x) b =
     (case b of JBool y \<Rightarrow> x = y | JNum n \<Rightarrow> n = (if x then 1 else 0) | _ \<Rightarrow> False)"
| "py_eq (JNum m) b =
     (case b of JNum n \<Rightarrow> m = n | JBool y \<Rightarrow> m = (if y then 1 else 0) | _ \<Rightarrow> False)"
| "py_eq (JStr s) b = (case b of JStr t \<Rightarrow> s = t | _ \<Rightarrow> False)"
| "py_eq (JList xs) b = (case b of JList ys \<Rightarrow> py_eq_list xs ys | _ \<Rightarrow> False)"
| "py_eq (JDict d) b =
     (case b of JDict e \<Rightarrow> length d = length e \<and> py_dict_sub d e | _ \<Rightarrow> False)"
| "py_eq_list [] ys = (ys = [])"
| "py_eq_list (x # xs) ys =
     (case ys of [] \<Rightarrow> False | y # ys' \<Rightarrow> py_eq x y \<and> py_eq_list xs ys')"
| "py_dict_sub [] e = True"
| "py_dict_sub ((k, v) # d) e =
     (case map_of e k of None \<Rightarrow> False | Some w \<Rightarrow> py_eq v w \<and> py_dict_sub d e)"

text \<open>Truth value of an object, as \<open>if x:\<close> tests it.\<close>

fun truthy :: "json \<Rightarrow> bool" where
  "truthy JNull = False"
| "truthy (JBool b) = b"
| "truthy (JNum n) = (n \<noteq> 0)"
| "truthy (JStr s) = (s \<noteq> [])"
| "truthy (JList xs) = (xs \<noteq> [])"
| "truthy (JDict d) = (d \<noteq> [])"

text \<open>\<open>d.get(k)\<close> and \<open>d.get(k, default)\<close>.\<close>

definition dict_get_default :: "(string \<times> json) list \<Rightarrow> string \<Rightarrow> json \<Rightarrow> json" where
  "dict_get_default d k dflt = (case map_of d k of None \<Rightarrow> dflt | Some v \<Rightarrow> v)"

definition dict_get :: "(string \<times> json) list \<Rightarrow> string \<Rightarrow> json" where
  "dict_get d k = dict_get_default d k JNull"

text \<open>\<open>x[0]\<close>: the first element of a list or string; a dict has string keys only, so
  the key \<open>0\<close> is never there; nothing else can be subscripted.\<close>

fun subscript0 :: "json \<Rightarrow> py_error + json" where
  "subscript0 (JList []) = Inl IndexError"
| "subscript0 (JList (x # xs)) = Inr x"
| "subscript0 (JStr []) = Inl IndexError"
| "subscript0 (JStr (c # cs)) = Inr (JStr [c])"
| "subscript0 (JDict d) = Inl KeyError"
| "subscript0 JNull = Inl TypeError"
| "subscript0 (JBool b) = Inl TypeError"
| "subscript0 (JNum n) = Inl TypeError"

section \<open>Firmware Reporter (report_gateway_firmware.py)\<close>

subsection \<open>Rows of the report\<close>

text \<open>
  \<open>_process_module\<close> appends one dict to \<open>data\<close>.  \<open>module_row\<close> is its dict literal,
  every value of which is computed before the append; \<open>module.get\<close> exists on a dict
  only.
\<close>

definition module_row :: "json \<Rightarrow> json \<Rightarrow> json \<Rightarrow> json \<Rightarrow> (string \<times> json) list \<Rightarrow> row" where
  "module_row cluster_name cluster_version cluster_device_id cluster_site_id m = [
     (''cluster_name'', cluster_name),
     (''cluster_version'', cluster_version),
     (''cluster_device_id'', cluster_device_id),
     (''cluster_site_id'', cluster_site_id),
     (''module_serial'', dict_get m ''serial''),
     (''module_mac'', dict_get m ''mac''),
     (''module_model'', dict_get m ''model''),
     (''module_version'', dict_get m ''version''),
     (''module_backup_version'', dict_get m ''backup_version''),
     (''module_need_snapshot'',
        JBool (\<not> py_eq (dict_get m ''version'') (dict_get m ''backup_version''))),
     (''module_pending_version'', dict_get m ''pending_version''),
     (''module_need_reboot'',
        JBool (\<not> py_eq (dict_get_default m ''pending_version'' (JStr [])) (JStr [])))]"

definition process_module ::
  "json \<Rightarrow> json \<Rightarrow> json \<Rightarrow> json \<Rightarrow> json \<Rightarrow> row list \<Rightarrow> py_error + row list" where
  "process_module cluster_name cluster_version cluster_device_id cluster_site_id module data =
     (case module of
        JDict m \<Rightarrow>
          Inr (data @ [module_row cluster_name cluster_version cluster_device_id
                         cluster_site_id m])
      | _ \<Rightarrow> Inl AttributeError)"

text \<open>
  The body of the loop of \<open>_process_gateways\<close> for one device.  \<open>cluster_module\<close> is one
  call \<open>_process_module(cluster_name, cluster_version, cluster_device_id,
  cluster_site_id, v[0], data)\<close>, the four cluster fields read with \<open>cluster.get\<close>; the
  loop body makes it for \<open>module_stat\<close> and, when \<open>module2_stat\<close> is truthy, for
  \<open>module2_stat\<close>.  The progress bar only writes to the terminal (it returns at once
  when the total is 0).
\<close>

definition cluster_module ::
  "(string \<times> json) list \<Rightarrow> json \<Rightarrow> row list \<Rightarrow> py_error + row list" where
  "cluster_module c v data =
     (case subscript0 v of
        Inl e \<Rightarrow> Inl e
      | Inr module \<Rightarrow>
          process_module (dict_get c ''name'') (dict_get c ''version'') (dict_get c ''id'')
            (dict_get c ''site_id'') module data)"

definition process_cluster :: "json \<Rightarrow> row list \<Rightarrow> py_error + row list" where
  "process_cluster cluster data =
     (case cluster of
        JDict c \<Rightarrow>
          (case cluster_module c (dict_get_default c ''module_stat'' (JList [JDict []])) data of
             Inl e \<Rightarrow> Inl e
           | Inr data1 \<Rightarrow>
               if truthy (dict_get c ''module2_stat'') then
                 cluster_module c (dict_get_default c ''module2_stat'' (JList [JDict []])) data1
               else Inr data1)
      | _ \<Rightarrow> Inl AttributeError)"

fun process_gateways_loop :: "json list \<Rightarrow> row list \<Rightarrow> py_error + row list" where
  "process_gateways_loop [] data = Inr data"
| "process_gateways_loop (cluster # rest) data =
     (case process_cluster cluster data of
        Inl e \<Rightarrow> Inl e
      | Inr data1 \<Rightarrow> process_gateways_loop rest data1)"

definition process_gateways :: "json list \<Rightarrow> py_error + row list" where
  "process_gateways gateways = process_gateways_loop gateways []"

text \<open>
  What the claims about \<open>_process_gateways\<close> speak of: a device the loop body gets
  through (\<open>well_formed\<close>: its \<open>module_stat\<close> is missing or a list that starts with a
  dict, and its \<open>module2_stat\<close> is falsy or such a list), and the rows of one device.
\<close>

definition module_ok :: "json \<Rightarrow> bool" where
  "module_ok v = (case v of JList (JDict m # rest) \<Rightarrow> True | _ \<Rightarrow> False)"

definition well_formed :: "json \<Rightarrow> bool" where
  "well_formed cluster =
     (case cluster of
        JDict c \<Rightarrow>
          module_ok (dict_get_default c ''module_stat'' (JList [JDict []])) \<and>
          (if truthy (dict_get c ''module2_stat'') then module_ok (dict_get c ''module2_stat'')
           else True)
      | _ \<Rightarrow> False)"

definition has_module2 :: "json \<Rightarrow> bool" where
  "has_module2 cluster = (case cluster of JDict c \<Rightarrow> truthy (dict_get c ''module2_stat'') | _ \<Rightarrow> False)"

definition module_rows :: "(string \<times> json) list \<Rightarrow> json \<Rightarrow> row list" where
  "module_rows c v =
     (case v of
        JList (JDict m # rest) \<Rightarrow>
          [module_row (dict_get c ''name'') (dict_get c ''version'') (dict_get c ''id'')
             (dict_get c ''site_id'') m]
      | _ \<Rightarrow> [])"

definition cluster_rows :: "json \<Rightarrow> row list" where
  "cluster_rows cluster =
     (case cluster of
        JDict c \<Rightarrow>
          module_rows c (dict_get_default c ''module_stat'' (JList [JDict []])) @
          (if truthy (dict_get c ''module2_stat'') then module_rows c (dict_get c ''module2_stat'')
           else [])
      | _ \<Rightarrow> [])"

subsection \<open>Listing the gateways\<close>

text \<open>
  A response of the listing API: the devices of one page and the link to the next page.
  \<open>mistapi.get_next\<close> fetches the page the link names; the two listing calls and the
  fetch are the parameters \<open>listOrgDevicesStats\<close>, \<open>listSiteDevicesStats\<close> and
  \<open>mist_get\<close>.  The \<open>while response.next\<close> loop goes on while the link is a non-empty
  string; it need not end, so its result is an option.
\<close>

record response =
  resp_data :: "json list"
  resp_next :: "string option"

partial_function (option) follow_pages ::
  "(string \<Rightarrow> response) \<Rightarrow> response \<Rightarrow> json list \<Rightarrow> json list option" where
  "follow_pages mist_get response gateways =
     (case resp_next response of
        None \<Rightarrow> Some gateways
      | Some url \<Rightarrow>
          if url = [] then Some gateways
          else follow_pages mist_get (mist_get url) (gateways @ resp_data (mist_get url)))"

definition get_org_gateways ::
  "(string \<Rightarrow> response) \<Rightarrow> (string \<Rightarrow> response) \<Rightarrow> string \<Rightarrow> json list option" where
  "get_org_gateways listOrgDevicesStats mist_get org_id =
     (let response = listOrgDevicesStats org_id
      in follow_pages mist_get response (resp_data response))"

definition get_site_gateways ::
  "(string \<Rightarrow> response) \<Rightarrow> (string \<Rightarrow> response) \<Rightarrow> string \<Rightarrow> json list option" where
  "get_site_gateways listSiteDevicesStats mist_get site_id =
     (let response = listSiteDevicesStats site_id
      in follow_pages mist_get response (resp_data response))"

text \<open>
  A sequence of pages in which each page links to the next until none remain: every
  page but the last has a link, the fetch of that link is the following page, and the
  last page has no link.
\<close>

fun page_chain :: "(string \<Rightarrow> response) \<Rightarrow> response list \<Rightarrow> bool" where
  "page_chain mist_get [] = False"
| "page_chain mist_get [p] =
     (case resp_next p of None \<Rightarrow> True | Some url \<Rightarrow> url = [])"
| "page_chain mist_get (p # q # ps) =
     (case resp_next p of
        None \<Rightarrow> False
      | Some url \<Rightarrow> url \<noteq> [] \<and> mist_get url = q \<and> page_chain mist_get (q # ps))"

subsection \<open>Saving the report\<close>

text \<open>
  \<open>csv.writer\<close> with its default dialect: a field is the \<open>str\<close> of the value (empty for
  \<open>None\<close>); it is put in double quotes, every double quote in it doubled, when it holds
  a comma, a double quote, a carriage return or a line feed; fields are joined by commas
  and the row ends with CR LF; a row of one empty field is written as two double quotes.
  \<open>py_str\<close> is the \<open>str\<close> of numbers, lists and dicts.
\<close>

definition csv_special :: "char \<Rightarrow> bool" where
  "csv_special ch = (ch = CHR '','' \<or> ch = CHR 0x22 \<or> ch = CHR 0x0D \<or> ch = CHR 0x0A)"

definition csv_field :: "string \<Rightarrow> string" where
  "csv_field s =
     (if list_ex csv_special s then
        [CHR 0x22] @ concat (map (\<lambda>ch. if ch = CHR 0x22 then [ch, ch] else [ch]) s) @ [CHR 0x22]
      else s)"

fun csv_join :: "string list \<Rightarrow> string" where
  "csv_join [] = []"
| "csv_join [fld] = fld"
| "csv_join (fld # fld2 # flds) = fld @ '','' @ csv_join (fld2 # flds)"

definition field_text :: "(json \<Rightarrow> string) \<Rightarrow> json \<Rightarrow> string" where
  "field_text py_str v =
     (case v of
        JNull \<Rightarrow> []
      | JStr s \<Rightarrow> s
      | JBool b \<Rightarrow> (if b then ''True'' else ''False'')
      | _ \<Rightarrow> py_str v)"

definition writerow :: "(json \<Rightarrow> string) \<Rightarrow> json list \<Rightarrow> string" where
  "writerow py_str cells =
     (let flds = map (field_text py_str) cells
      in (if flds = [[]] then [CHR 0x22, CHR 0x22] else csv_join (map csv_field flds)) @
         [CHR 0x0D, CHR 0x0A])"

text \<open>
  \<open>_save_as_csv\<close>.  The headers: for each entry, for each key of the entry in the
  dict's order, the key is appended unless it is in \<open>headers\<close> already.  Then the file is
  written row by row; \<open>f\<close> is the text written so far.  The name of the file (with the
  date or the timestamp appended on request) has no part in its content.
\<close>

fun add_keys :: "string list \<Rightarrow> string list \<Rightarrow> string list" where
  "add_keys [] headers = headers"
| "add_keys (key # keys) headers =
     add_keys keys (if key \<in> set headers then headers else headers @ [key])"

fun collect_headers :: "row list \<Rightarrow> string list \<Rightarrow> string list" where
  "collect_headers [] headers = headers"
| "collect_headers (entry # rest) headers =
     collect_headers rest (add_keys (map fst entry) headers)"

definition entry_cells :: "string list \<Rightarrow> row \<Rightarrow> json list" where
  "entry_cells headers entry = map (\<lambda>header. dict_get_default entry header (JStr [])) headers"

fun write_entries :: "(json \<Rightarrow> string) \<Rightarrow> string list \<Rightarrow> row list \<Rightarrow> string \<Rightarrow> string" where
  "write_entries py_str headers [] f = f"
| "write_entries py_str headers (entry # rest) f =
     write_entries py_str headers rest (f @ writerow py_str (entry_cells headers entry))"

definition save_as_csv :: "(json \<Rightarrow> string) \<Rightarrow> row list \<Rightarrow> string \<Rightarrow> string \<Rightarrow> string" where
  "save_as_csv py_str data scope scope_id =
     (let headers = collect_headers data [];
          f0 = writerow py_str
                 [JStr (''#Gateways Firmware Backup for '' @ scope @ '' '' @ scope_id)];
          f1 = f0 @ writerow py_str (map JStr headers)
      in write_entries py_str headers data f1)"

section \<open>Firmware Backup Trigger (fix_gateway_backup_firmware.py)\<close>

subsection \<open>Reading the report\<close>

text \<open>
  The report is opened with \<open>newline=''\<close>: iterating over the file gives its lines,
  each with its line end (LF, CR or CR LF) kept.  \<open>cur\<close> is the line read so far.
\<close>

fun py_lines :: "string \<Rightarrow> string \<Rightarrow> string list" where
  "py_lines cur [] = (if cur = [] then [] else [cur])"
| "py_lines cur (ch # rest) =
     (if ch = CHR 0x0A then (cur @ [ch]) # py_lines [] rest
      else if ch = CHR 0x0D then
        (case rest of
           [] \<Rightarrow> [cur @ [ch]]
         | ch2 # rest2 \<Rightarrow>
             if ch2 = CHR 0x0A then (cur @ [ch, ch2]) # py_lines [] rest2
             else (cur @ [ch]) # py_lines [] rest)
      else py_lines (cur @ [ch]) rest)"

definition file_lines :: "string \<Rightarrow> string list" where
  "file_lines text = py_lines [] text"

text \<open>\<open>filter(lambda row: row[0]!='#', f)\<close>: the lines that do not start with \<open>#\<close>.\<close>

definition not_comment :: "string \<Rightarrow> py_error + bool" where
  "not_comment row = (case row of [] \<Rightarrow> Inl IndexError | ch # _ \<Rightarrow> Inr (ch \<noteq> CHR ''#''))"

fun filter_lines :: "string list \<Rightarrow> py_error + string list" where
  "filter_lines [] = Inr []"
| "filter_lines (line # rest) =
     (case not_comment line of
        Inl e \<Rightarrow> Inl e
      | Inr keep \<Rightarrow>
          (case filter_lines rest of
             Inl e \<Rightarrow> Inl e
           | Inr kept \<Rightarrow> Inr (if keep then line # kept else kept)))"

text \<open>
  A row of \<open>csv.DictReader\<close> is a dict from the header's names to strings; the script
  reads it with \<open>row.get\<close> only, so a key whose value is \<open>None\<close> (a line shorter than the
  header) is a key that is not there.  \<open>DictReader\<close> itself, the parser of the standard
  library, is a parameter: it gives the rows of the lines it is handed, or raises.
\<close>

type_synonym csv_row = "(string \<times> string) list"

text \<open>\<open>site_id\<close> is \<open>None\<close> or a string; \<open>if site_id\<close> holds for a non-empty string.\<close>

definition str_truthy :: "string option \<Rightarrow> bool" where
  "str_truthy s = (case s of None \<Rightarrow> False | Some t \<Rightarrow> t \<noteq> [])"

text \<open>
  The loop of \<open>_read_csv\<close> over the rows.  \<open>"SRX" in row.get("module_model")\<close> raises
  \<open>TypeError\<close> when the row has no model (\<open>in\<close> on \<open>None\<close>).
\<close>

fun read_rows ::
  "string option \<Rightarrow> csv_row list \<Rightarrow> csv_row list \<Rightarrow> string option list \<Rightarrow>
   py_error + csv_row list" where
  "read_rows site_id [] data device_ids = Inr data"
| "read_rows site_id (row # rest) data device_ids =
     (case map_of row ''module_model'' of
        None \<Rightarrow> Inl TypeError
      | Some model \<Rightarrow>
          if \<not> sublist ''SRX'' model then read_rows site_id rest data device_ids
          else if str_truthy site_id \<and> map_of row ''cluster_site_id'' \<noteq> site_id then
            read_rows site_id rest data device_ids
          else if map_of row ''module_need_snapshot'' \<noteq> Some ''True'' then
            read_rows site_id rest data device_ids
          else if map_of row ''cluster_device_id'' \<in> set device_ids then
            read_rows site_id rest data device_ids
          else
            read_rows site_id rest (data @ [row])
              (device_ids @ [map_of row ''cluster_device_id'']))"

text \<open>
  What the script prints, logs, asks and calls, in order; and how a run ends: with
  \<open>sys.exit\<close>, by reaching the end of the script, or with an exception nobody catches.
\<close>

datatype event =
    Log_message string
  | Log_success string
  | Log_failure string
  | Logger_error string
  | Logger_critical string
  | Logger_info string
  | Console_error string
  | Console_info string
  | Print string
  | Pretty_print "csv_row list"
  | Input string
  | Create_snapshot string string

datatype outcome = Exit nat | Returned | Uncaught py_error

text \<open>
  \<open>_read_csv\<close>: any exception of the \<open>try\<close> block (the file cannot be opened, the
  filter or the parser raises, a row has no model) is caught, logged, and ends the run
  with \<open>sys.exit(1)\<close>.  \<open>open_file\<close> gives the text of a file, or \<open>None\<close> when it cannot
  be opened.
\<close>

definition read_csv_rows ::
  "(string list \<Rightarrow> py_error + csv_row list) \<Rightarrow> (string \<Rightarrow> string option) \<Rightarrow>
   string \<Rightarrow> string option \<Rightarrow> py_error + csv_row list" where
  "read_csv_rows DictReader open_file csv_file site_id =
     (case open_file csv_file of
        None \<Rightarrow> Inl OSError
      | Some content \<Rightarrow>
          (case filter_lines (file_lines content) of
             Inl e \<Rightarrow> Inl e
           | Inr lines \<Rightarrow>
               (case DictReader lines of
                  Inl e \<Rightarrow> Inl e
                | Inr rows \<Rightarrow> read_rows site_id rows [] [])))"

definition read_csv ::
  "(string list \<Rightarrow> py_error + csv_row list) \<Rightarrow> (string \<Rightarrow> string option) \<Rightarrow>
   string \<Rightarrow> string option \<Rightarrow> event list \<times> (nat + csv_row list)" where
  "read_csv DictReader open_file csv_file site_id =
     (let message = ''Reading CSV Report''
      in case read_csv_rows DictReader open_file csv_file site_id of
           Inr data \<Rightarrow> ([Log_message message, Log_success message], Inr data)
         | Inl e \<Rightarrow>
             ([Log_message message, Log_failure message, Logger_error ''Exception occurred''],
              Inl 1))"

subsection \<open>Asking, and triggering the snapshots\<close>

text \<open>\<open>_request_approval\<close>: \<open>answer\<close> is what the user types; the result is the exit
  code when the run stops here.\<close>

definition request_approval :: "csv_row list \<Rightarrow> string \<Rightarrow> event list \<times> nat option" where
  "request_approval data answer =
     (let asked = [Print (replicate 80 CHR ''-''), Print ''List of gateways to process:'',
                   Print [], Pretty_print data, Input ''Do you want to continue (y/N)? '']
      in if answer = ''y'' \<or> answer = ''Y'' then (asked @ [Print (replicate 80 CHR ''-'')], None)
         else (asked @ [Console_info ''process stopped by the user. Exiting...''], Some 0))"

text \<open>
  The snapshot call either raises or returns a response with a status code.  What it
  does at its \<open>n\<close>-th call of the run, for the site and device it is given, is the
  parameter \<open>api\<close>.
\<close>

datatype api_result = Raised | Status int

definition str_of :: "string option \<Rightarrow> string" where
  "str_of s = (case s of None \<Rightarrow> ''None'' | Some t \<Rightarrow> t)"

text \<open>
  \<open>_process_gateways\<close> of the Backup Trigger; \<open>calls\<close> counts the snapshot calls made so
  far.  The progress bar divides by the number of gateways, which is not 0 inside the
  loop.
\<close>

fun process_gateways_fix ::
  "(nat \<Rightarrow> string \<Rightarrow> string \<Rightarrow> api_result) \<Rightarrow> nat \<Rightarrow> csv_row list \<Rightarrow> event list" where
  "process_gateways_fix api calls [] = []"
| "process_gateways_fix api calls (gateway # rest) =
     (let site_id = map_of gateway ''cluster_site_id'';
          device_id = map_of gateway ''cluster_device_id'';
          device_mac = map_of gateway ''module_mac'';
          message = ''Processing device '' @ str_of device_id
      in Log_message message #
         (if \<not> str_truthy site_id then
            Log_failure message #
            Console_error (''Missing site_id for device '' @ str_of device_mac) #
            process_gateways_fix api calls rest
          else if \<not> str_truthy device_id then
            Log_failure message #
            Console_error (''Missing device_id for device '' @ str_of device_mac) #
            process_gateways_fix api calls rest
          else
            Create_snapshot (str_of site_id) (str_of device_id) #
            (case api calls (str_of site_id) (str_of device_id) of
               Status status_code \<Rightarrow>
                 (if status_code = 200 then Log_success message else Log_failure message) #
                 process_gateways_fix api (Suc calls) rest
             | Raised \<Rightarrow>
                 Log_failure message # Logger_error ''Exception occurred'' #
                 process_gateways_fix api (Suc calls) rest)))"

subsection \<open>The run\<close>

definition start_fix ::
  "(string list \<Rightarrow> py_error + csv_row list) \<Rightarrow> (string \<Rightarrow> string option) \<Rightarrow>
   (nat \<Rightarrow> string \<Rightarrow> string \<Rightarrow> api_result) \<Rightarrow> string \<Rightarrow>
   string option \<Rightarrow> string \<Rightarrow> bool \<Rightarrow> event list \<times> outcome" where
  "start_fix DictReader open_file api answer site_id csv_file auto_approve =
     (case read_csv DictReader open_file csv_file site_id of
        (ev, Inl code) \<Rightarrow> (ev, Exit code)
      | (ev, Inr data) \<Rightarrow>
          if data = [] then
            (ev @ [Print ''All the gateways are compliant... Exiting...''], Exit 0)
          else if auto_approve then
            (ev @ Console_info
                    ''auto-approve parameter has been set to True. Starting the process'' #
                  process_gateways_fix api 0 data, Returned)
          else
            (case request_approval data answer of
               (asked, Some code) \<Rightarrow> (ev @ asked, Exit code)
             | (asked, None) \<Rightarrow> (ev @ asked @ process_gateways_fix api 0 data, Returned)))"

text \<open>
  \<open>check_mistapi_version\<close>: \<open><\<close> on two \<open>str\<close> compares them character by character,
  by code point; a proper prefix is smaller.  The messages are shortened.
\<close>

fun str_lt :: "string \<Rightarrow> string \<Rightarrow> bool" where
  "str_lt [] [] = False"
| "str_lt [] (y # ys) = True"
| "str_lt (x # xs) [] = False"
| "str_lt (x # xs) (y # ys) =
     (if (of_char x :: nat) < of_char y then True
      else if (of_char y :: nat) < of_char x then False
      else str_lt xs ys)"

definition MISTAPI_MIN_VERSION :: string where
  "MISTAPI_MIN_VERSION = ''0.53.0''"

definition check_mistapi_version :: "string \<Rightarrow> event list \<times> nat option" where
  "check_mistapi_version version =
     (if str_lt version MISTAPI_MIN_VERSION then
        ([Logger_critical (''mistapi package version '' @ MISTAPI_MIN_VERSION @
            '' is required, you are currently using version '' @ version @ ''.''),
          Print ''Critical: please update mistapi''], Some 2)
      else
        ([Logger_info (''mistapi package version '' @ MISTAPI_MIN_VERSION @
            '' is required, you are currently using version '' @ version @ ''.'')], None))"

text \<open>
  The script from its first line.  \<open>import_ok\<close>: the import of \<open>mistapi\<close> succeeds;
  \<open>version\<close>: \<open>mistapi.__version__\<close>; \<open>getopt\<close>: what \<open>getopt.getopt\<close> makes of the
  command line, an error or the list of the options with their arguments.  The loop over
  the options: \<open>usage()\<close> ends the run with \<open>sys.exit(0)\<close>.  The session's login is left
  out.
\<close>

record options =
  opt_site_id :: "string option"
  opt_csv_file :: string
  opt_auto_approve :: bool
  opt_env_file :: string
  opt_log_file :: string

definition default_options :: options where
  "default_options =
     \<lparr>opt_site_id = None, opt_csv_file = ''./report_gateway_firmware.csv'',
      opt_auto_approve = False, opt_env_file = ''~/.mist_env'',
      opt_log_file = ''./script.log''\<rparr>"

fun parse_options :: "(string \<times> string) list \<Rightarrow> options \<Rightarrow> outcome + options" where
  "parse_options [] opts = Inr opts"
| "parse_options ((opt, a) # rest) opts =
     (if opt \<in> set [''-h'', ''--help''] then Inl (Exit 0)
      else if opt \<in> set [''-s'', ''--site_id''] then
        parse_options rest (opts\<lparr>opt_site_id := Some a\<rparr>)
      else if opt \<in> set [''-f'', ''--in_file''] then
        parse_options rest (opts\<lparr>opt_csv_file := a\<rparr>)
      else if opt \<in> set [''--auto-approve''] then
        parse_options rest (opts\<lparr>opt_auto_approve := True\<rparr>)
      else if opt \<in> set [''-e'', ''--env''] then
        parse_options rest (opts\<lparr>opt_env_file := a\<rparr>)
      else if opt \<in> set [''-l'', ''--log_file''] then
        parse_options rest (opts\<lparr>opt_log_file := a\<rparr>)
      else Inl (Uncaught AssertionError))"

definition main_fix ::
  "bool \<Rightarrow> string \<Rightarrow> (string + (string \<times> string) list) \<Rightarrow>
   (string list \<Rightarrow> py_error + csv_row list) \<Rightarrow> (string \<Rightarrow> string option) \<Rightarrow>
   (nat \<Rightarrow> string \<Rightarrow> string \<Rightarrow> api_result) \<Rightarrow> string \<Rightarrow> event list \<times> outcome" where
  "main_fix import_ok version getopt DictReader open_file api answer =
     (if \<not> import_ok then ([Print ''Critical: mistapi package is missing''], Exit 2)
      else case getopt of
        Inl err \<Rightarrow> ([Console_error err, Print ''usage''], Exit 0)
      | Inr given \<Rightarrow>
          (case parse_options given default_options of
             Inl (Exit code) \<Rightarrow> ([Print ''usage''], Exit code)
           | Inl ended \<Rightarrow> ([], ended)
           | Inr opts \<Rightarrow>
               (case check_mistapi_version version of
                  (ev, Some code) \<Rightarrow> (ev, Exit code)
                | (ev, None) \<Rightarrow>
                    (case start_fix DictReader open_file api answer (opt_site_id opts)
                            (opt_csv_file opts) (opt_auto_approve opts) of
                       (ev2, ended) \<Rightarrow> (ev @ ev2, ended)))))"

text \<open>
  What the claims about \<open>_read_csv\<close> speak of.  A row qualifies when its model contains
  \<open>SRX\<close>, its need-snapshot field is the string \<open>True\<close>, and either no site filter is in
  force (\<open>site_id\<close> is \<open>None\<close> or empty) or its site is the filter's.  The row at index
  \<open>i\<close> is selected when it qualifies, its device id is not among \<open>device_ids\<close>, and no
  earlier row that qualifies has its device id.
\<close>

definition qualifies :: "string option \<Rightarrow> csv_row \<Rightarrow> bool" where
  "qualifies site_id row =
     ((case map_of row ''module_model'' of None \<Rightarrow> False | Some model \<Rightarrow> sublist ''SRX'' model) \<and>
      map_of row ''module_need_snapshot'' = Some ''True'' \<and>
      (\<not> str_truthy site_id \<or> map_of row ''cluster_site_id'' = site_id))"

definition selected :: "string option \<Rightarrow> string option list \<Rightarrow> csv_row list \<Rightarrow> nat \<Rightarrow> bool" where
  "selected site_id device_ids rows i =
     (qualifies site_id (rows ! i) \<and>
      map_of (rows ! i) ''cluster_device_id'' \<notin> set device_ids \<and>
      (\<forall>j<i. qualifies site_id (rows ! j) \<longrightarrow>
         map_of (rows ! j) ''cluster_device_id'' \<noteq> map_of (rows ! i) ''cluster_device_id''))"

text \<open>
  What the claims about the Backup Trigger's \<open>_process_gateways\<close> speak of: the
  candidates for which the snapshot call is made (site id and device id both there), the
  classifications logged (\<open>True\<close> for a success), and the snapshot calls made, each read
  off the events in order.
\<close>

definition callable :: "csv_row \<Rightarrow> bool" where
  "callable gateway =
     (str_truthy (map_of gateway ''cluster_site_id'') \<and>
      str_truthy (map_of gateway ''cluster_device_id''))"

fun outcomes :: "event list \<Rightarrow> bool list" where
  "outcomes [] = []"
| "outcomes (Log_success message # ev) = True # outcomes ev"
| "outcomes (Log_failure message # ev) = False # outcomes ev"
| "outcomes (e # ev) = outcomes ev"

fun snapshot_calls :: "event list \<Rightarrow> (string \<times> string) list" where
  "snapshot_calls [] = []"
| "snapshot_calls (Create_snapshot site_id device_id # ev) =
     (site_id, device_id) # snapshot_calls ev"
| "snapshot_calls (e # ev) = snapshot_calls ev"

fun prompts :: "event list \<Rightarrow> string list" where
  "prompts [] = []"
| "prompts (Input question # ev) = question # prompts ev"
| "prompts (e # ev) = prompts ev"

text \<open>
  The order of releases that "a version below the required minimum" speaks of: a version
  \<open>a.b.c\<close> is its numbers \<open>[a, b, c]\<close>, compared number by number.  It is not what
  \<open>check_mistapi_version\<close> computes.
\<close>

fun release :: "string \<Rightarrow> nat \<Rightarrow> nat list" where
  "release [] n = [n]"
| "release (ch # rest) n =
     (if ch = CHR ''.'' then n # release rest 0
      else release rest (10 * n + (of_char ch - 48)))"

fun release_lt :: "nat list \<Rightarrow> nat list \<Rightarrow> bool" where
  "release_lt [] [] = False"
| "release_lt [] (y # ys) = True"
| "release_lt (x # xs) [] = False"
| "release_lt (x # xs) (y # ys) = (x < y \<or> (x = y \<and> release_lt xs ys))"

definition below_minimum :: "string \<Rightarrow> bool" where
  "below_minimum version = release_lt (release version 0) (release MISTAPI_MIN_VERSION 0)"

section \<open>Admin Inviter (org_admins_import.py)\<close>

text \<open>
  The organisation, the role and the privileges are chosen before the file is opened
  and are the same for every row.  \<open>open_file\<close> gives the text of the file, or \<open>None\<close>
  when it cannot be opened; \<open>reader\<close> is \<open>csv.reader\<close>, which gives the rows of the text
  (a blank line is an empty row); \<open>create_invite\<close> tells whether the \<open>n\<close>-th invite call
  of the run returns or raises.
\<close>

datatype invite_event =
    Printed string
  | Invited string string string
  | Admins_printed

datatype invite_result = Invite_done | Invite_raised

fun py_join :: "string \<Rightarrow> string list \<Rightarrow> string" where
  "py_join sep [] = []"
| "py_join sep [s] = s"
| "py_join sep (s # t # rest) = s @ sep @ py_join sep (t # rest)"

text \<open>
  The loop over the rows; the result says whether it raised.  \<open>row[0]\<close>, \<open>row[1]\<close>
  and \<open>row[2]\<close> are read first: a row of fewer than three columns raises \<open>IndexError\<close>
  before anything is printed or sent.
\<close>

fun invite_rows ::
  "(nat \<Rightarrow> string \<Rightarrow> string \<Rightarrow> string \<Rightarrow> invite_result) \<Rightarrow> nat \<Rightarrow> string list list \<Rightarrow>
   invite_event list \<times> bool" where
  "invite_rows create_invite n [] = ([], False)"
| "invite_rows create_invite n (row # rest) =
     (case row of
        email # first_name # last_name # others \<Rightarrow>
          (case create_invite n email first_name last_name of
             Invite_raised \<Rightarrow>
               ([Printed (py_join '', '' row), Invited email first_name last_name], True)
           | Invite_done \<Rightarrow>
               (case invite_rows create_invite (Suc n) rest of
                  (ev, raised) \<Rightarrow>
                    (Printed (py_join '', '' row) # Invited email first_name last_name # ev,
                     raised)))
      | _ \<Rightarrow> ([], True))"

text \<open>The script from \<open>print("Opening CSV file ...")\<close> on: the events and the exit code;
  \<open>path\<close> is \<open>sys.argv[1]\<close>.\<close>

definition org_admins_import ::
  "(string \<Rightarrow> string option) \<Rightarrow> (string \<Rightarrow> string list list) \<Rightarrow>
   (nat \<Rightarrow> string \<Rightarrow> string \<Rightarrow> string \<Rightarrow> invite_result) \<Rightarrow> string \<Rightarrow>
   invite_event list \<times> nat" where
  "org_admins_import open_file reader create_invite path =
     (let tried =
            (case open_file path of
               None \<Rightarrow> [Printed ''Error while opening the CSV file... Aborting'']
             | Some content \<Rightarrow>
                 (case invite_rows create_invite 0 (reader content) of
                    (ev, raised) \<Rightarrow>
                      if raised then ev @ [Printed ''Error while opening the CSV file... Aborting'']
                      else ev))
      in (Printed (''Opening CSV file '' @ path) # tried @ [Admins_printed], 0))"

text \<open>What the script prints and sends for a row of three columns or more.\<close>

definition row_events :: "string list \<Rightarrow> invite_event list" where
  "row_events row = [Printed (py_join '', '' row), Invited (row ! 0) (row ! 1) (row ! 2)]"

section \<open>Results\<close>

subsection \<open>C1: the rows the Backup Trigger selects\<close>


lemma py_lines_nonempty: "l \<in> set (py_lines cur s) \<Longrightarrow> l \<noteq> []"
proof (induction cur s arbitrary: l rule: py_lines.induct)
  case (1 cur)
  then show ?case by (simp split: if_splits)
next
  case (2 cur ch rest)
  show ?case
  proof (cases "ch = CHR 0x0A")
    case True
    with "2.prems" have "l = cur @ [ch] \<or> l \<in> set (py_lines [] rest)" by simp
    with "2.IH"(1) [OF True] show ?thesis by auto
  next
    case lf: False
    show ?thesis
    proof (cases "ch = CHR 0x0D")
      case False
      with lf "2.prems" have "l \<in> set (py_lines (cur @ [ch]) rest)" by simp
      with "2.IH"(4) [OF lf False] show ?thesis by simp
    next
      case cr: True
      show ?thesis
      proof (cases rest)
        case Nil
        with lf cr "2.prems" show ?thesis by simp
      next
        case (Cons ch2 rest2)
        show ?thesis
        proof (cases "ch2 = CHR 0x0A")
          case True
          with lf cr Cons "2.prems" have "l = cur @ [ch, ch2] \<or> l \<in> set (py_lines [] rest2)"
            by simp
          with "2.IH"(2) [OF lf cr Cons True] show ?thesis by auto
        next
          case False
          with lf cr Cons "2.prems" have "l = cur @ [ch] \<or> l \<in> set (py_lines [] rest)"
            by simp
          with "2.IH"(3) [OF lf cr Cons False] show ?thesis by auto
        qed
      qed
    qed
  qed
qed

lemma filter_lines_nonempty:
  "list_all (\<lambda>l. l \<noteq> []) ls \<Longrightarrow> filter_lines ls = Inr (filter (\<lambda>l. hd l \<noteq> CHR ''#'') ls)"
  by (induction ls) (auto simp: not_comment_def split: list.splits)

lemma filter_lines_file:
  "filter_lines (file_lines content) = Inr (filter (\<lambda>l. hd l \<noteq> CHR ''#'') (file_lines content))"
  by (rule filter_lines_nonempty) (simp add: list_all_iff file_lines_def py_lines_nonempty)

lemma selected_Suc:
  "selected s ids (r # rest) (Suc i) =
   selected s (if qualifies s r \<and> map_of r ''cluster_device_id'' \<notin> set ids
               then ids @ [map_of r ''cluster_device_id''] else ids) rest i"
proof -
  have all: "\<And>P. (\<forall>j<Suc i. P j) = (P 0 \<and> (\<forall>j<i. P (Suc j)))"
    by (metis less_Suc_eq_0_disj)
  show ?thesis
    unfolding selected_def all by auto
qed

lemma filter_upt_Suc:
  "filter P [0..<Suc n] = (if P 0 then [0] else []) @ map Suc (filter (\<lambda>i. P (Suc i)) [0..<n])"
proof -
  have "[0..<Suc n] = 0 # map Suc [0..<n]"
    by (simp add: upt_conv_Cons map_Suc_upt del: upt_Suc)
  then show ?thesis by (simp add: filter_map comp_def del: upt_Suc)
qed

lemma read_rows_step:
  assumes "map_of r ''module_model'' \<noteq> None"
  shows "read_rows s (r # rest) data ids =
    (if qualifies s r \<and> map_of r ''cluster_device_id'' \<notin> set ids
     then read_rows s rest (data @ [r]) (ids @ [map_of r ''cluster_device_id''])
     else read_rows s rest data ids)"
  using assms by (auto simp: qualifies_def)

lemma read_rows_selected:
  "list_all (\<lambda>row. map_of row ''module_model'' \<noteq> None) rows \<Longrightarrow>
   read_rows s rows data ids =
     Inr (data @ map ((!) rows) (filter (selected s ids rows) [0..<length rows]))"
proof (induction rows arbitrary: data ids)
  case Nil
  then show ?case by simp
next
  case (Cons r rest)
  from Cons.prems have m: "map_of r ''module_model'' \<noteq> None"
    and rest: "list_all (\<lambda>row. map_of row ''module_model'' \<noteq> None) rest" by simp_all
  have s0: "selected s ids (r # rest) 0 =
      (qualifies s r \<and> map_of r ''cluster_device_id'' \<notin> set ids)"
    by (simp add: selected_def)
  show ?case
    unfolding read_rows_step [OF m] length_Cons filter_upt_Suc
    by (simp add: Cons.IH [OF rest] s0 selected_Suc comp_def del: upt_Suc read_rows.simps)
qed

lemma selected_iff:
  "selected s [] rows i =
   (qualifies s (rows ! i) \<and>
    \<not> (\<exists>j<i. selected s [] rows j \<and>
         map_of (rows ! j) ''cluster_device_id'' = map_of (rows ! i) ''cluster_device_id''))"
proof
  assume "selected s [] rows i"
  then show "qualifies s (rows ! i) \<and>
    \<not> (\<exists>j<i. selected s [] rows j \<and>
         map_of (rows ! j) ''cluster_device_id'' = map_of (rows ! i) ''cluster_device_id'')"
    by (auto simp: selected_def)
next
  assume a: "qualifies s (rows ! i) \<and>
    \<not> (\<exists>j<i. selected s [] rows j \<and>
         map_of (rows ! j) ''cluster_device_id'' = map_of (rows ! i) ''cluster_device_id'')"
  let ?d = "\<lambda>k. map_of (rows ! k) ''cluster_device_id''"
  have "\<not> (\<exists>j<i. qualifies s (rows ! j) \<and> ?d j = ?d i)"
  proof
    assume "\<exists>j<i. qualifies s (rows ! j) \<and> ?d j = ?d i"
    then obtain j where j: "j < i \<and> qualifies s (rows ! j) \<and> ?d j = ?d i"
      and least: "\<And>k. k < j \<Longrightarrow> \<not> (k < i \<and> qualifies s (rows ! k) \<and> ?d k = ?d i)"
      using exists_least_iff [of "\<lambda>j. j < i \<and> qualifies s (rows ! j) \<and> ?d j = ?d i"] by auto
    have "selected s [] rows j"
      unfolding selected_def using j least by (auto intro: less_trans)
    with a j show False by blast
  qed
  with a show "selected s [] rows i" by (auto simp: selected_def)
qed


text \<open>
  C1.  When the report can be opened and parsed and every row has a model, \<open>_read_csv\<close>
  returns the selected rows, in the order of the file.  A row is selected if and only if
  it qualifies (its model contains \<open>SRX\<close>, its need-snapshot field is \<open>True\<close>, and no site
  filter is in force or its site is the filter's) and no row selected before it has its
  device id: of the rows with one device id that qualify, the first is retained.
\<close>

theorem read_csv_selection:
  assumes "open_file csv_file = Some content"
    and "filter_lines (file_lines content) = Inr lines"
    and "DictReader lines = Inr rows"
    and "list_all (\<lambda>row. map_of row ''module_model'' \<noteq> None) rows"
  shows "snd (read_csv DictReader open_file csv_file site_id) =
           Inr (map ((!) rows) (filter (selected site_id [] rows) [0..<length rows])) \<and>
         (\<forall>i. selected site_id [] rows i =
            (qualifies site_id (rows ! i) \<and>
             \<not> (\<exists>j<i. selected site_id [] rows j \<and>
                  map_of (rows ! j) ''cluster_device_id'' =
                  map_of (rows ! i) ''cluster_device_id''))) \<and>
         (\<forall>row. qualifies site_id row =
            ((\<exists>model. map_of row ''module_model'' = Some model \<and> sublist ''SRX'' model) \<and>
             map_of row ''module_need_snapshot'' = Some ''True'' \<and>
             (site_id = None \<or> site_id = Some [] \<or> map_of row ''cluster_site_id'' = site_id)))"
proof (intro conjI allI)
  from assms(1-3) have "read_csv_rows DictReader open_file csv_file site_id =
      read_rows site_id rows [] []"
    by (simp add: read_csv_rows_def)
  with read_rows_selected [OF assms(4), of site_id "[]" "[]"]
  show "snd (read_csv DictReader open_file csv_file site_id) =
      Inr (map ((!) rows) (filter (selected site_id [] rows) [0..<length rows]))"
    by (simp add: read_csv_def Let_def)
next
  fix i
  show "selected site_id [] rows i =
            (qualifies site_id (rows ! i) \<and>
             \<not> (\<exists>j<i. selected site_id [] rows j \<and>
                  map_of (rows ! j) ''cluster_device_id'' =
                  map_of (rows ! i) ''cluster_device_id''))"
    by (rule selected_iff)
next
  fix row
  show "qualifies site_id row =
            ((\<exists>model. map_of row ''module_model'' = Some model \<and> sublist ''SRX'' model) \<and>
             map_of row ''module_need_snapshot'' = Some ''True'' \<and>
             (site_id = None \<or> site_id = Some [] \<or> map_of row ''cluster_site_id'' = site_id))"
    by (cases site_id; cases "map_of row ''module_model''")
       (auto simp: qualifies_def str_truthy_def)
qed

theorem read_csv_selection_witness:
  "(\<lambda>f. if f = ''report.csv'' then Some (''#r'' @ [CHR 0x0A] @ ''h'' @ [CHR 0x0A]) else None)
     ''report.csv'' = Some (''#r'' @ [CHR 0x0A] @ ''h'' @ [CHR 0x0A]) \<and>
   filter_lines (file_lines (''#r'' @ [CHR 0x0A] @ ''h'' @ [CHR 0x0A])) = Inr [''h'' @ [CHR 0x0A]] \<and>
   list_all (\<lambda>row. map_of row ''module_model'' \<noteq> None)
     [[(''cluster_device_id'', ''d1''), (''module_model'', ''SRX320''),
       (''module_need_snapshot'', ''True''), (''module_mac'', ''m1'')],
      [(''cluster_device_id'', ''d1''), (''module_model'', ''SRX320''),
       (''module_need_snapshot'', ''True''), (''module_mac'', ''m2'')],
      [(''cluster_device_id'', ''d2''), (''module_model'', ''EX2300''),
       (''module_need_snapshot'', ''True''), (''module_mac'', ''m3'')],
      [(''cluster_device_id'', ''d3''), (''module_model'', ''SRX345''),
       (''module_need_snapshot'', ''False''), (''module_mac'', ''m4'')]] \<and>
   map ((!)
     [[(''cluster_device_id'', ''d1''), (''module_model'', ''SRX320''),
       (''module_need_snapshot'', ''True''), (''module_mac'', ''m1'')],
      [(''cluster_device_id'', ''d1''), (''module_model'', ''SRX320''),
       (''module_need_snapshot'', ''True''), (''module_mac'', ''m2'')],
      [(''cluster_device_id'', ''d2''), (''module_model'', ''EX2300''),
       (''module_need_snapshot'', ''True''), (''module_mac'', ''m3'')],
      [(''cluster_device_id'', ''d3''), (''module_model'', ''SRX345''),
       (''module_need_snapshot'', ''False''), (''module_mac'', ''m4'')]])
     (filter (selected None []
       [[(''cluster_device_id'', ''d1''), (''module_model'', ''SRX320''),
         (''module_need_snapshot'', ''True''), (''module_mac'', ''m1'')],
        [(''cluster_device_id'', ''d1''), (''module_model'', ''SRX320''),
         (''module_need_snapshot'', ''True''), (''module_mac'', ''m2'')],
        [(''cluster_device_id'', ''d2''), (''module_model'', ''EX2300''),
         (''module_need_snapshot'', ''True''), (''module_mac'', ''m3'')],
        [(''cluster_device_id'', ''d3''), (''module_model'', ''SRX345''),
         (''module_need_snapshot'', ''False''), (''module_mac'', ''m4'')]])
       [0..<4]) =
   [[(''cluster_device_id'', ''d1''), (''module_model'', ''SRX320''),
     (''module_need_snapshot'', ''True''), (''module_mac'', ''m1'')]]"
proof -
  let ?content = "''#r'' @ [CHR 0x0A] @ ''h'' @ [CHR 0x0A]"
  let ?r1 = "[(''cluster_device_id'', ''d1''), (''module_model'', ''SRX320''),
       (''module_need_snapshot'', ''True''), (''module_mac'', ''m1'')]"
  let ?r2 = "[(''cluster_device_id'', ''d1''), (''module_model'', ''SRX320''),
       (''module_need_snapshot'', ''True''), (''module_mac'', ''m2'')]"
  let ?r3 = "[(''cluster_device_id'', ''d2''), (''module_model'', ''EX2300''),
       (''module_need_snapshot'', ''True''), (''module_mac'', ''m3'')]"
  let ?r4 = "[(''cluster_device_id'', ''d3''), (''module_model'', ''SRX345''),
       (''module_need_snapshot'', ''False''), (''module_mac'', ''m4'')]"
  let ?rows = "[?r1, ?r2, ?r3, ?r4]"
  let ?open = "\<lambda>f. if f = ''report.csv'' then Some ?content else None"
  let ?reader = "\<lambda>ls. if ls = [''h'' @ [CHR 0x0A]] then Inr ?rows else Inl CsvError"
  have o: "?open ''report.csv'' = Some ?content" by simp
  have f: "filter_lines (file_lines ?content) = Inr [''h'' @ [CHR 0x0A]]"
    by (simp add: file_lines_def not_comment_def)
  have d: "?reader [''h'' @ [CHR 0x0A]] = Inr ?rows" by simp
  have m: "list_all (\<lambda>row. map_of row ''module_model'' \<noteq> None) ?rows" by simp
  have s1: "sublist ''SRX'' ''SRX320''" by (simp add: sublist_Cons_right)
  have s3: "\<not> sublist ''SRX'' ''EX2300''" by (simp add: sublist_Cons_right)
  have s4: "sublist ''SRX'' ''SRX345''" by (simp add: sublist_Cons_right)
  have run: "snd (read_csv ?reader ?open ''report.csv'' None) = Inr [?r1]"
    by (simp add: read_csv_def read_csv_rows_def Let_def file_lines_def not_comment_def
        s1 s3 s4 str_truthy_def)
  note t = read_csv_selection [where open_file = ?open and csv_file = "''report.csv''"
      and content = ?content and lines = "[''h'' @ [CHR 0x0A]]" and DictReader = ?reader
      and rows = ?rows and site_id = None]
  have len: "length ?rows = 4" by simp
  from t o f d m
  have e: "snd (read_csv ?reader ?open ''report.csv'' None) =
      Inr (map ((!) ?rows) (filter (selected None [] ?rows) [0..<length ?rows]))"
    by blast
  have "Inr (map ((!) ?rows) (filter (selected None [] ?rows) [0..<length ?rows])) =
      (Inr [?r1] :: nat + csv_row list)"
    by (rule trans [OF e [symmetric] run])
  then have "map ((!) ?rows) (filter (selected None [] ?rows) [0..<length ?rows]) = [?r1]"
    by (simp only: sum.inject)
  then have "map ((!) ?rows) (filter (selected None [] ?rows) [0..<4]) = [?r1]"
    unfolding len .
  with o f m show ?thesis by blast
qed

subsection \<open>C2: the derived flags of a module row\<close>

lemma process_module_need_snapshot:
  "process_module cn cv cid csid (JDict m) data = Inr out \<Longrightarrow>
   map_of (last out) ''module_need_snapshot'' =
     Some (JBool (\<not> py_eq (dict_get m ''version'') (dict_get m ''backup_version'')))"
  by (auto simp: process_module_def module_row_def)

lemma process_module_need_reboot_str:
  "map_of m ''pending_version'' = Some (JStr s) \<Longrightarrow>
   process_module cn cv cid csid (JDict m) data = Inr out \<Longrightarrow>
   map_of (last out) ''module_need_reboot'' = Some (JBool (s \<noteq> []))"
  by (auto simp: process_module_def module_row_def dict_get_default_def)

lemma process_module_need_reboot_absent:
  "map_of m ''pending_version'' = None \<Longrightarrow>
   process_module cn cv cid csid (JDict m) data = Inr out \<Longrightarrow>
   map_of (last out) ''module_need_reboot'' = Some (JBool False)"
  by (auto simp: process_module_def module_row_def dict_get_default_def)

text \<open>
  C2.  The claim: \<open>module_need_reboot\<close> is true if and only if the module's
  \<open>pending_version\<close> is a non-empty string.  A module whose \<open>pending_version\<close> is
  present and \<open>None\<close> (JSON null) has no pending version, yet the row that
  \<open>_process_module\<close> emits for it has \<open>module_need_reboot = True\<close>: the default
  \<open>""\<close> of \<open>module.get("pending_version", "")\<close> covers the missing key only.
\<close>

theorem process_module_null_pending_version:
  "process_module cn cv cid csid (JDict [(''pending_version'', JNull)]) [] = Inr [[
     (''cluster_name'', cn), (''cluster_version'', cv),
     (''cluster_device_id'', cid), (''cluster_site_id'', csid),
     (''module_serial'', JNull), (''module_mac'', JNull), (''module_model'', JNull),
     (''module_version'', JNull), (''module_backup_version'', JNull),
     (''module_need_snapshot'', JBool False),
     (''module_pending_version'', JNull),
     (''module_need_reboot'', JBool True)]]"
  by (simp add: process_module_def module_row_def dict_get_def dict_get_default_def)

subsection \<open>C3: the batch of snapshot calls\<close>

lemma outcomes_step:
  "outcomes (process_gateways_fix api k (x # rest)) =
   (callable x \<and>
    api k (str_of (map_of x ''cluster_site_id'')) (str_of (map_of x ''cluster_device_id'')) =
      Status 200) #
   outcomes (process_gateways_fix api (if callable x then Suc k else k) rest)"
proof (cases "callable x")
  case False
  then show ?thesis by (auto simp: callable_def Let_def)
next
  case True
  then show ?thesis
    by (cases "api k (str_of (map_of x ''cluster_site_id''))
          (str_of (map_of x ''cluster_device_id''))")
       (simp_all add: callable_def Let_def)
qed

lemma snapshot_calls_step:
  "snapshot_calls (process_gateways_fix api k (x # rest)) =
   (if callable x
    then [(str_of (map_of x ''cluster_site_id''), str_of (map_of x ''cluster_device_id''))]
    else []) @
   snapshot_calls (process_gateways_fix api (if callable x then Suc k else k) rest)"
proof (cases "callable x")
  case False
  then show ?thesis by (auto simp: callable_def Let_def)
next
  case True
  then show ?thesis
    by (cases "api k (str_of (map_of x ''cluster_site_id''))
          (str_of (map_of x ''cluster_device_id''))")
       (simp_all add: callable_def Let_def)
qed

lemma map_upt_Suc0:
  "map f [0..<Suc n] = f 0 # map (\<lambda>i. f (Suc i)) [0..<n]"
  by (simp add: map_upt_Suc del: upt_Suc)

lemma outcomes_process_gateways_fix:
  "outcomes (process_gateways_fix api k gateways) =
   map (\<lambda>i. callable (gateways ! i) \<and>
          api (k + length (filter callable (take i gateways)))
            (str_of (map_of (gateways ! i) ''cluster_site_id''))
            (str_of (map_of (gateways ! i) ''cluster_device_id'')) = Status 200)
     [0..<length gateways]"
proof (induction gateways arbitrary: k)
  case Nil
  then show ?case by simp
next
  case (Cons x rest)
  show ?case
    unfolding outcomes_step length_Cons map_upt_Suc0
    by (simp add: Cons.IH del: upt_Suc process_gateways_fix.simps)
qed

lemma snapshot_calls_process_gateways_fix:
  "snapshot_calls (process_gateways_fix api k gateways) =
   map (\<lambda>g. (str_of (map_of g ''cluster_site_id''), str_of (map_of g ''cluster_device_id'')))
     (filter callable gateways)"
proof (induction gateways arbitrary: k)
  case Nil
  then show ?case by simp
next
  case (Cons x rest)
  show ?case
    unfolding snapshot_calls_step
    by (simp add: Cons.IH del: process_gateways_fix.simps)
qed

text \<open>
  C3.  \<open>_process_gateways\<close> classifies every candidate once, in order, and goes through
  the whole list: a candidate is a success exactly when it has a site id and a device
  id and its snapshot call returns status 200 (the call of candidate \<open>i\<close> is the call
  number "candidates before \<open>i\<close> that have both ids"); every other candidate (the call
  raises, the status is not 200, an id is missing) is a failure.  The snapshot calls made
  are one for each candidate that has both ids, in order: none is made twice.
\<close>

theorem process_gateways_fix_batch:
  "outcomes (process_gateways_fix api 0 gateways) =
     map (\<lambda>i. callable (gateways ! i) \<and>
            api (length (filter callable (take i gateways)))
              (str_of (map_of (gateways ! i) ''cluster_site_id''))
              (str_of (map_of (gateways ! i) ''cluster_device_id'')) = Status 200)
       [0..<length gateways] \<and>
   length (outcomes (process_gateways_fix api 0 gateways)) = length gateways \<and>
   length (filter (\<lambda>b. b) (outcomes (process_gateways_fix api 0 gateways))) +
   length (filter (\<lambda>b. \<not> b) (outcomes (process_gateways_fix api 0 gateways))) =
     length gateways \<and>
   snapshot_calls (process_gateways_fix api 0 gateways) =
     map (\<lambda>g. (str_of (map_of g ''cluster_site_id''), str_of (map_of g ''cluster_device_id'')))
       (filter callable gateways)"
proof -
  have o: "outcomes (process_gateways_fix api 0 gateways) =
     map (\<lambda>i. callable (gateways ! i) \<and>
            api (length (filter callable (take i gateways)))
              (str_of (map_of (gateways ! i) ''cluster_site_id''))
              (str_of (map_of (gateways ! i) ''cluster_device_id'')) = Status 200)
       [0..<length gateways]"
    using outcomes_process_gateways_fix [of api 0 gateways] by simp
  then have l: "length (outcomes (process_gateways_fix api 0 gateways)) = length gateways"
    by simp
  have "length (filter (\<lambda>b. b) bs) + length (filter (\<lambda>b. \<not> b) bs) = length bs"
    for bs :: "bool list"
    using sum_length_filter_compl [of "\<lambda>b. b" bs] by simp
  from this [of "outcomes (process_gateways_fix api 0 gateways)"] o l
    snapshot_calls_process_gateways_fix [of api 0 gateways]
  show ?thesis by simp
qed

theorem process_gateways_fix_batch_witness:
  "outcomes (process_gateways_fix
     (\<lambda>n site_id device_id. if n = 1 \<or> n = 3 then Raised else Status 200) 0
     [[(''cluster_site_id'', ''s''), (''cluster_device_id'', ''d1'')],
      [(''cluster_site_id'', ''s''), (''cluster_device_id'', ''d2'')],
      [(''cluster_site_id'', ''s''), (''cluster_device_id'', ''d3'')],
      [(''cluster_site_id'', ''s''), (''cluster_device_id'', ''d4'')],
      [(''cluster_site_id'', ''s''), (''cluster_device_id'', ''d5'')]]) =
     [True, False, True, False, True] \<and>
   length (filter (\<lambda>b. b) [True, False, True, False, True]) = 3 \<and>
   length (filter (\<lambda>b. \<not> b) [True, False, True, False, True]) = 2 \<and>
   snapshot_calls (process_gateways_fix
     (\<lambda>n site_id device_id. if n = 1 \<or> n = 3 then Raised else Status 200) 0
     [[(''cluster_site_id'', ''s''), (''cluster_device_id'', ''d1'')],
      [(''cluster_site_id'', ''s''), (''cluster_device_id'', ''d2'')],
      [(''cluster_site_id'', ''s''), (''cluster_device_id'', ''d3'')],
      [(''cluster_site_id'', ''s''), (''cluster_device_id'', ''d4'')],
      [(''cluster_site_id'', ''s''), (''cluster_device_id'', ''d5'')]]) =
     [(''s'', ''d1''), (''s'', ''d2''), (''s'', ''d3''), (''s'', ''d4''), (''s'', ''d5'')]"
proof -
  let ?api = "\<lambda>(n::nat) (site_id::string) (device_id::string).
      if n = 1 \<or> n = 3 then Raised else Status 200"
  let ?G = "[[(''cluster_site_id'', ''s''), (''cluster_device_id'', ''d1'')],
      [(''cluster_site_id'', ''s''), (''cluster_device_id'', ''d2'')],
      [(''cluster_site_id'', ''s''), (''cluster_device_id'', ''d3'')],
      [(''cluster_site_id'', ''s''), (''cluster_device_id'', ''d4'')],
      [(''cluster_site_id'', ''s''), (''cluster_device_id'', ''d5'')]]"
  have c: "filter callable ?G = ?G"
    by (simp add: callable_def str_truthy_def)
  have run: "outcomes (process_gateways_fix ?api 0 ?G) = [True, False, True, False, True]"
    by (simp add: str_truthy_def str_of_def Let_def)
  from process_gateways_fix_batch [of ?api ?G]
  have "snapshot_calls (process_gateways_fix ?api 0 ?G) =
     map (\<lambda>g. (str_of (map_of g ''cluster_site_id''), str_of (map_of g ''cluster_device_id'')))
       (filter callable ?G)" by blast
  then have calls: "snapshot_calls (process_gateways_fix ?api 0 ?G) =
     [(''s'', ''d1''), (''s'', ''d2''), (''s'', ''d3''), (''s'', ''d4''), (''s'', ''d5'')]"
    unfolding c by (simp add: str_of_def)
  from run calls show ?thesis by simp
qed

subsection \<open>C4: pagination\<close>

lemma follow_pages_chain:
  "page_chain mist_get (p # ps) \<Longrightarrow>
   follow_pages mist_get p acc = Some (acc @ concat (map resp_data ps))"
proof (induction ps arbitrary: p acc)
  case Nil
  then show ?case
    by (subst follow_pages.simps) (simp split: option.splits)
next
  case (Cons q qs)
  from Cons.prems obtain url where n: "resp_next p = Some url" and u: "url \<noteq> []"
    and q: "mist_get url = q" and rest: "page_chain mist_get (q # qs)"
    by (auto split: option.splits)
  have "follow_pages mist_get p acc = follow_pages mist_get q (acc @ resp_data q)"
    by (subst follow_pages.simps) (simp add: n u q)
  also have "\<dots> = Some ((acc @ resp_data q) @ concat (map resp_data qs))"
    by (rule Cons.IH [OF rest])
  finally show ?case by simp
qed

text \<open>
  C4.  When the first page and the pages fetched after it form a chain of N pages, each
  linking to the next until none remain, the loop ends and the gateway list is the
  concatenation of the pages in order, for the org listing and for the site listing
  alike; its length is the sum of the page lengths.
\<close>

theorem pagination_concat:
  assumes "page_chain mist_get (p # ps)"
  shows "(listOrgDevicesStats org_id = p \<longrightarrow>
            get_org_gateways listOrgDevicesStats mist_get org_id =
              Some (concat (map resp_data (p # ps)))) \<and>
         (listSiteDevicesStats site_id = p \<longrightarrow>
            get_site_gateways listSiteDevicesStats mist_get site_id =
              Some (concat (map resp_data (p # ps)))) \<and>
         length (concat (map resp_data (p # ps))) =
           sum_list (map (\<lambda>r. length (resp_data r)) (p # ps))"
proof (intro conjI impI)
  assume "listOrgDevicesStats org_id = p"
  then show "get_org_gateways listOrgDevicesStats mist_get org_id =
      Some (concat (map resp_data (p # ps)))"
    using follow_pages_chain [OF assms, of "resp_data p"]
    by (simp add: get_org_gateways_def)
next
  assume "listSiteDevicesStats site_id = p"
  then show "get_site_gateways listSiteDevicesStats mist_get site_id =
      Some (concat (map resp_data (p # ps)))"
    using follow_pages_chain [OF assms, of "resp_data p"]
    by (simp add: get_site_gateways_def)
next
  show "length (concat (map resp_data (p # ps))) =
      sum_list (map (\<lambda>r. length (resp_data r)) (p # ps))"
    by (simp add: length_concat comp_def)
qed

theorem pagination_concat_witness:
  "page_chain
     (\<lambda>url. if url = ''page2'' then \<lparr>resp_data = [JStr ''c''], resp_next = Some ''page3''\<rparr>
             else \<lparr>resp_data = [], resp_next = None\<rparr>)
     [\<lparr>resp_data = [JStr ''a'', JStr ''b''], resp_next = Some ''page2''\<rparr>,
      \<lparr>resp_data = [JStr ''c''], resp_next = Some ''page3''\<rparr>,
      \<lparr>resp_data = [], resp_next = None\<rparr>] \<and>
   get_org_gateways
     (\<lambda>org_id. \<lparr>resp_data = [JStr ''a'', JStr ''b''], resp_next = Some ''page2''\<rparr>)
     (\<lambda>url. if url = ''page2'' then \<lparr>resp_data = [JStr ''c''], resp_next = Some ''page3''\<rparr>
             else \<lparr>resp_data = [], resp_next = None\<rparr>)
     ''org1'' = Some [JStr ''a'', JStr ''b'', JStr ''c''] \<and>
   get_site_gateways
     (\<lambda>site_id. \<lparr>resp_data = [JStr ''a'', JStr ''b''], resp_next = Some ''page2''\<rparr>)
     (\<lambda>url. if url = ''page2'' then \<lparr>resp_data = [JStr ''c''], resp_next = Some ''page3''\<rparr>
             else \<lparr>resp_data = [], resp_next = None\<rparr>)
     ''site1'' = Some [JStr ''a'', JStr ''b'', JStr ''c'']"
proof -
  let ?p1 = "\<lparr>resp_data = [JStr ''a'', JStr ''b''], resp_next = Some ''page2''\<rparr>"
  let ?p2 = "\<lparr>resp_data = [JStr ''c''], resp_next = Some ''page3''\<rparr>"
  let ?p3 = "\<lparr>resp_data = [], resp_next = None\<rparr>"
  let ?get = "\<lambda>url. if url = ''page2'' then ?p2 else ?p3"
  have chain: "page_chain ?get [?p1, ?p2, ?p3]"
    by simp
  from pagination_concat [OF chain, of "\<lambda>org_id. ?p1" "''org1''" "\<lambda>site_id. ?p1" "''site1''"]
  have "get_org_gateways (\<lambda>org_id. ?p1) ?get ''org1'' = Some [JStr ''a'', JStr ''b'', JStr ''c'']"
    and "get_site_gateways (\<lambda>site_id. ?p1) ?get ''site1'' =
      Some [JStr ''a'', JStr ''b'', JStr ''c'']"
    by simp_all
  with chain show ?thesis by blast
qed

subsection \<open>C5: nothing to do\<close>

text \<open>
  C5.  When \<open>_read_csv\<close> returns no candidate, \<open>_start\<close> prints
  \<open>All the gateways are compliant... Exiting...\<close> and ends the run with exit code 0;
  the user is never asked, and no snapshot call is made.
\<close>

theorem start_fix_nothing_to_do:
  assumes "snd (read_csv DictReader open_file csv_file site_id) = Inr []"
  shows "start_fix DictReader open_file api answer site_id csv_file auto_approve =
           ([Log_message ''Reading CSV Report'', Log_success ''Reading CSV Report'',
             Print ''All the gateways are compliant... Exiting...''], Exit 0) \<and>
         prompts (fst (start_fix DictReader open_file api answer site_id csv_file
           auto_approve)) = [] \<and>
         snapshot_calls (fst (start_fix DictReader open_file api answer site_id csv_file
           auto_approve)) = []"
proof -
  from assms have "read_csv DictReader open_file csv_file site_id =
      ([Log_message ''Reading CSV Report'', Log_success ''Reading CSV Report''], Inr [])"
    by (cases "read_csv_rows DictReader open_file csv_file site_id")
       (simp_all add: read_csv_def Let_def)
  then have "start_fix DictReader open_file api answer site_id csv_file auto_approve =
           ([Log_message ''Reading CSV Report'', Log_success ''Reading CSV Report'',
             Print ''All the gateways are compliant... Exiting...''], Exit 0)"
    by (simp add: start_fix_def)
  then show ?thesis by simp
qed

theorem start_fix_nothing_to_do_witness:
  "snd (read_csv
     (\<lambda>ls. Inr [[(''cluster_device_id'', ''d1''), (''module_model'', ''SRX320''),
                  (''module_need_snapshot'', ''False'')]])
     (\<lambda>f. if f = ''report.csv'' then Some (''#r'' @ [CHR 0x0A] @ ''h'' @ [CHR 0x0A]) else None)
     ''report.csv'' None) = Inr [] \<and>
   start_fix
     (\<lambda>ls. Inr [[(''cluster_device_id'', ''d1''), (''module_model'', ''SRX320''),
                  (''module_need_snapshot'', ''False'')]])
     (\<lambda>f. if f = ''report.csv'' then Some (''#r'' @ [CHR 0x0A] @ ''h'' @ [CHR 0x0A]) else None)
     (\<lambda>n site_id device_id. Status 200) ''y'' None ''report.csv'' False =
   ([Log_message ''Reading CSV Report'', Log_success ''Reading CSV Report'',
     Print ''All the gateways are compliant... Exiting...''], Exit 0)"
proof -
  let ?reader = "\<lambda>ls::string list.
      (Inr [[(''cluster_device_id'', ''d1''), (''module_model'', ''SRX320''),
             (''module_need_snapshot'', ''False'')]] :: py_error + csv_row list)"
  let ?open = "\<lambda>f. if f = ''report.csv'' then Some (''#r'' @ [CHR 0x0A] @ ''h'' @ [CHR 0x0A])
      else None"
  have s: "sublist ''SRX'' ''SRX320''" by (simp add: sublist_Cons_right)
  have e: "snd (read_csv ?reader ?open ''report.csv'' None) = Inr []"
    by (simp add: read_csv_def read_csv_rows_def Let_def file_lines_def not_comment_def s
        str_truthy_def)
  note t = start_fix_nothing_to_do [where DictReader = ?reader and open_file = ?open
      and csv_file = "''report.csv''" and site_id = None
      and api = "\<lambda>n site_id device_id. Status 200" and answer = "''y''"
      and auto_approve = False]
  from t e have "start_fix ?reader ?open (\<lambda>n site_id device_id. Status 200) ''y'' None
      ''report.csv'' False =
   ([Log_message ''Reading CSV Report'', Log_success ''Reading CSV Report'',
     Print ''All the gateways are compliant... Exiting...''], Exit 0)"
    by blast
  with e show ?thesis by blast
qed

subsection \<open>C6: a short row in the Admin Inviter's file\<close>

lemma row3: "3 \<le> length row \<Longrightarrow> \<exists>a b c others. row = a # b # c # others"
  by (cases row rule: list.exhaust; simp; rename_tac x xs; case_tac xs; simp; rename_tac y ys; case_tac ys; simp)

lemma invite_rows_ok_step:
  assumes "3 \<le> length row"
  shows "invite_rows create_invite n (row # rest) =
    (case create_invite n (row ! 0) (row ! 1) (row ! 2) of
       Invite_raised \<Rightarrow> (row_events row, True)
     | Invite_done \<Rightarrow> (row_events row @ fst (invite_rows create_invite (Suc n) rest),
         snd (invite_rows create_invite (Suc n) rest)))"
proof -
  from row3 [OF assms] obtain a b c others where "row = a # b # c # others" by blast
  then show ?thesis
    by (simp add: row_events_def split: invite_result.splits prod.splits)
qed

lemma invite_rows_short:
  "length row < 3 \<Longrightarrow> invite_rows create_invite n (row # rest) = ([], True)"
  by (cases row rule: list.exhaust; simp; rename_tac x xs; case_tac xs; simp; rename_tac y ys; case_tac ys; simp)

lemma invite_rows_prefix:
  assumes "list_all (\<lambda>r. 3 \<le> length r) pre" and "length short < 3"
  shows "\<exists>k\<le>length pre.
     invite_rows create_invite n (pre @ short # post) =
       (concat (map row_events (take k pre)), True)"
  using assms(1)
proof (induction pre arbitrary: n)
  case Nil
  then show ?case by (simp add: invite_rows_short [OF assms(2)] del: invite_rows.simps)
next
  case (Cons row pre)
  then have r: "3 \<le> length row" and p: "list_all (\<lambda>r. 3 \<le> length r) pre" by simp_all
  show ?case
  proof (cases "create_invite n (row ! 0) (row ! 1) (row ! 2)")
    case Invite_raised
    have "invite_rows create_invite n ((row # pre) @ short # post) =
        (concat (map row_events (take (Suc 0) (row # pre))), True)"
      using Invite_raised by (simp add: invite_rows_ok_step [OF r] del: invite_rows.simps)
    then show ?thesis by (intro exI [of _ "Suc 0"]) simp
  next
    case Invite_done
    from Cons.IH [OF p, of "Suc n"] obtain k where k: "k \<le> length pre"
      and e: "invite_rows create_invite (Suc n) (pre @ short # post) =
        (concat (map row_events (take k pre)), True)" by blast
    have "invite_rows create_invite n ((row # pre) @ short # post) =
        (concat (map row_events (take (Suc k) (row # pre))), True)"
      using Invite_done e by (simp add: invite_rows_ok_step [OF r] del: invite_rows.simps)
    with k show ?thesis by (intro exI [of _ "Suc k"]) simp
  qed
qed

lemma invite_rows_all:
  assumes "list_all (\<lambda>r. 3 \<le> length r) pre" and "length short < 3"
    and "\<forall>i<length pre. create_invite (n + i) (pre ! i ! 0) (pre ! i ! 1) (pre ! i ! 2) = Invite_done"
  shows "invite_rows create_invite n (pre @ short # post) =
       (concat (map row_events pre), True)"
  using assms(1,3)
proof (induction pre arbitrary: n)
  case Nil
  then show ?case by (simp add: invite_rows_short [OF assms(2)] del: invite_rows.simps)
next
  case (Cons row pre)
  then have r: "3 \<le> length row" and p: "list_all (\<lambda>r. 3 \<le> length r) pre" by simp_all
  from Cons.prems(2) have d: "create_invite n (row ! 0) (row ! 1) (row ! 2) = Invite_done"
    by (metis add_0_right length_greater_0_conv list.distinct(1) nth_Cons_0)
  have "\<forall>i<length pre. create_invite (Suc n + i) (pre ! i ! 0) (pre ! i ! 1) (pre ! i ! 2) =
      Invite_done"
  proof (intro allI impI)
    fix i assume "i < length pre"
    then have "Suc i < length (row # pre)" by simp
    from Cons.prems(2) [rule_format, OF this] show
      "create_invite (Suc n + i) (pre ! i ! 0) (pre ! i ! 1) (pre ! i ! 2) = Invite_done"
      by simp
  qed
  from Cons.IH [OF p this] d show ?case
    by (simp add: invite_rows_ok_step [OF r] del: invite_rows.simps)
qed

text \<open>
  C6.  When the file has a row of fewer than three columns (the first such row, after
  rows of three columns or more), the loop raises at that row at the latest; the one
  handler prints \<open>Error while opening the CSV file... Aborting\<close>; what was printed and
  sent before is the work on some first rows of the file and nothing of the short row or
  of the rows after it; the admin list is printed all the same and the script exits with
  0.  When no invite call before the short row raises, the rows before it are all
  processed and the loop raises at the short row.
\<close>

theorem invite_short_row:
  assumes "open_file path = Some content"
    and "reader content = pre @ short # post"
    and "list_all (\<lambda>r. 3 \<le> length r) pre"
    and "length short < 3"
  shows "(\<exists>k\<le>length pre.
            org_admins_import open_file reader create_invite path =
              (Printed (''Opening CSV file '' @ path) #
               concat (map row_events (take k pre)) @
               [Printed ''Error while opening the CSV file... Aborting'', Admins_printed], 0)) \<and>
         ((\<forall>i<length pre. create_invite i (pre ! i ! 0) (pre ! i ! 1) (pre ! i ! 2) =
              Invite_done) \<longrightarrow>
            invite_rows create_invite 0 (reader content) = (concat (map row_events pre), True) \<and>
            org_admins_import open_file reader create_invite path =
              (Printed (''Opening CSV file '' @ path) #
               concat (map row_events pre) @
               [Printed ''Error while opening the CSV file... Aborting'', Admins_printed], 0))"
proof (intro conjI impI)
  from invite_rows_prefix [OF assms(3,4), of create_invite 0 post]
  obtain k where k: "k \<le> length pre"
    and e: "invite_rows create_invite 0 (pre @ short # post) =
      (concat (map row_events (take k pre)), True)" by blast
  from e assms(1,2) have "org_admins_import open_file reader create_invite path =
      (Printed (''Opening CSV file '' @ path) #
       concat (map row_events (take k pre)) @
       [Printed ''Error while opening the CSV file... Aborting'', Admins_printed], 0)"
    by (simp add: org_admins_import_def)
  with k show "\<exists>k\<le>length pre.
      org_admins_import open_file reader create_invite path =
        (Printed (''Opening CSV file '' @ path) #
         concat (map row_events (take k pre)) @
         [Printed ''Error while opening the CSV file... Aborting'', Admins_printed], 0)"
    by blast
next
  assume "\<forall>i<length pre. create_invite i (pre ! i ! 0) (pre ! i ! 1) (pre ! i ! 2) = Invite_done"
  then have "\<forall>i<length pre.
      create_invite (0 + i) (pre ! i ! 0) (pre ! i ! 1) (pre ! i ! 2) = Invite_done" by simp
  from invite_rows_all [OF assms(3,4) this, of post]
  have e: "invite_rows create_invite 0 (pre @ short # post) = (concat (map row_events pre), True)" .
  with assms(2) show "invite_rows create_invite 0 (reader content) =
      (concat (map row_events pre), True)" by simp
  from e assms(1,2) show "org_admins_import open_file reader create_invite path =
      (Printed (''Opening CSV file '' @ path) #
       concat (map row_events pre) @
       [Printed ''Error while opening the CSV file... Aborting'', Admins_printed], 0)"
    by (simp add: org_admins_import_def)
qed

theorem invite_short_row_witness:
  "(\<lambda>f. if f = ''in.csv'' then Some ''text'' else None) ''in.csv'' = Some ''text'' \<and>
   (\<lambda>c. if c = ''text'' then [[''a@x.org'', ''Ann'', ''Lee''], [''b@x.org''],
                                [''c@x.org'', ''Cy'', ''Roe'']] else []) ''text'' =
     [[''a@x.org'', ''Ann'', ''Lee'']] @ [''b@x.org''] # [[''c@x.org'', ''Cy'', ''Roe'']] \<and>
   list_all (\<lambda>r. 3 \<le> length r) [[''a@x.org'', ''Ann'', ''Lee'']] \<and>
   length [''b@x.org''] < 3 \<and>
   org_admins_import (\<lambda>f. if f = ''in.csv'' then Some ''text'' else None)
     (\<lambda>c. if c = ''text'' then [[''a@x.org'', ''Ann'', ''Lee''], [''b@x.org''],
                                [''c@x.org'', ''Cy'', ''Roe'']] else [])
     (\<lambda>n email first_name last_name. Invite_done) ''in.csv'' =
   ([Printed ''Opening CSV file in.csv'', Printed ''a@x.org, Ann, Lee'',
     Invited ''a@x.org'' ''Ann'' ''Lee'',
     Printed ''Error while opening the CSV file... Aborting'', Admins_printed], 0)"
proof -
  let ?open = "\<lambda>f. if f = ''in.csv'' then Some ''text'' else None"
  let ?reader = "\<lambda>c. if c = ''text'' then [[''a@x.org'', ''Ann'', ''Lee''], [''b@x.org''],
                                [''c@x.org'', ''Cy'', ''Roe'']] else []"
  let ?api = "\<lambda>(n::nat) (email::string) (first_name::string) (last_name::string). Invite_done"
  let ?pre = "[[''a@x.org'', ''Ann'', ''Lee'']]"
  have o: "?open ''in.csv'' = Some ''text''" by simp
  have r: "?reader ''text'' = ?pre @ [''b@x.org''] # [[''c@x.org'', ''Cy'', ''Roe'']]" by simp
  have p: "list_all (\<lambda>r. 3 \<le> length r) ?pre" by simp
  have s: "length [''b@x.org''] < 3" by simp
  have d: "\<forall>i<length ?pre. ?api i (?pre ! i ! 0) (?pre ! i ! 1) (?pre ! i ! 2) = Invite_done"
    by simp
  note t = invite_short_row [where open_file = ?open and path = "''in.csv''"
      and content = "''text''" and reader = ?reader and pre = ?pre and short = "[''b@x.org'']"
      and post = "[[''c@x.org'', ''Cy'', ''Roe'']]" and create_invite = ?api]
  from t o r p s d have "org_admins_import ?open ?reader ?api ''in.csv'' =
      (Printed (''Opening CSV file '' @ ''in.csv'') #
       concat (map row_events ?pre) @
       [Printed ''Error while opening the CSV file... Aborting'', Admins_printed], 0)"
    by blast
  then have "org_admins_import ?open ?reader ?api ''in.csv'' =
   ([Printed ''Opening CSV file in.csv'', Printed ''a@x.org, Ann, Lee'',
     Invited ''a@x.org'' ''Ann'' ''Lee'',
     Printed ''Error while opening the CSV file... Aborting'', Admins_printed], 0)"
    by (simp add: row_events_def)
  with o r p s show ?thesis by blast
qed

subsection \<open>C7: exit codes of the Backup Trigger\<close>

lemma main_fix_import_missing:
  "snd (main_fix False version getopt DictReader open_file api answer) = Exit 2"
  by (simp add: main_fix_def)

lemma parse_options_help:
  "parse_options ((''-h'', a) # rest) opts = Inl (Exit 0)"
  "parse_options ((''--help'', a) # rest) opts = Inl (Exit 0)"
  by simp_all

lemma parse_options_help_later:
  "list_all (\<lambda>p. fst p \<in> set [''-s'', ''--site_id'', ''-f'', ''--in_file'', ''--auto-approve'',
       ''-e'', ''--env'', ''-l'', ''--log_file'']) before \<Longrightarrow>
   h = ''-h'' \<or> h = ''--help'' \<Longrightarrow>
   parse_options (before @ (h, a) # rest) opts = Inl (Exit 0)"
proof (induction before arbitrary: opts)
  case Nil
  then show ?case by auto
next
  case (Cons p before)
  obtain opt b where p: "p = (opt, b)" by (cases p)
  from Cons.prems p have k: "opt \<in> set [''-s'', ''--site_id'', ''-f'', ''--in_file'',
      ''--auto-approve'', ''-e'', ''--env'', ''-l'', ''--log_file'']"
    and r: "list_all (\<lambda>p. fst p \<in> set [''-s'', ''--site_id'', ''-f'', ''--in_file'',
      ''--auto-approve'', ''-e'', ''--env'', ''-l'', ''--log_file'']) before" by simp_all
  note ih = Cons.IH [OF r Cons.prems(2)]
  from k have "opt = ''-s'' \<or> opt = ''--site_id'' \<or> opt = ''-f'' \<or> opt = ''--in_file'' \<or>
      opt = ''--auto-approve'' \<or> opt = ''-e'' \<or> opt = ''--env'' \<or> opt = ''-l'' \<or>
      opt = ''--log_file''" by simp
  then show ?case
    unfolding p by (elim disjE) (simp_all add: ih)
qed

text \<open>The options \<open>getopt\<close> can return before a help option are the script's own, so
  a help option anywhere on the command line ends the run with 0.\<close>

lemma main_fix_help:
  "list_all (\<lambda>p. fst p \<in> set [''-s'', ''--site_id'', ''-f'', ''--in_file'', ''--auto-approve'',
       ''-e'', ''--env'', ''-l'', ''--log_file'']) before \<Longrightarrow>
   h = ''-h'' \<or> h = ''--help'' \<Longrightarrow>
   snd (main_fix True version (Inr (before @ (h, a) # rest)) DictReader open_file api answer) =
     Exit 0"
  by (simp add: main_fix_def parse_options_help_later del: parse_options.simps)

lemma main_fix_version:
  "parse_options given default_options = Inr opts \<Longrightarrow> str_lt version MISTAPI_MIN_VERSION \<Longrightarrow>
   snd (main_fix True version (Inr given) DictReader open_file api answer) = Exit 2"
  by (simp add: main_fix_def check_mistapi_version_def)

lemma start_fix_read_failure:
  "read_csv_rows DictReader open_file csv_file site_id = Inl e \<Longrightarrow>
   snd (start_fix DictReader open_file api answer site_id csv_file auto_approve) = Exit 1"
  by (simp add: start_fix_def read_csv_def Let_def)

lemma read_csv_rows_unreadable:
  "open_file csv_file = None \<Longrightarrow>
   read_csv_rows DictReader open_file csv_file site_id = Inl OSError"
  by (simp add: read_csv_rows_def)

lemma start_fix_declined:
  "read_csv_rows DictReader open_file csv_file site_id = Inr data \<Longrightarrow> data \<noteq> [] \<Longrightarrow>
   answer \<noteq> ''y'' \<Longrightarrow> answer \<noteq> ''Y'' \<Longrightarrow>
   snd (start_fix DictReader open_file api answer site_id csv_file False) = Exit 0"
  by (simp add: start_fix_def read_csv_def request_approval_def Let_def)

lemma start_fix_empty:
  "read_csv_rows DictReader open_file csv_file site_id = Inr [] \<Longrightarrow>
   snd (start_fix DictReader open_file api answer site_id csv_file auto_approve) = Exit 0"
  by (simp add: start_fix_def read_csv_def Let_def)

lemma start_fix_outcome:
  "snd (start_fix DictReader open_file api answer site_id csv_file auto_approve) \<noteq> Exit 2"
proof (cases "read_csv_rows DictReader open_file csv_file site_id")
  case (Inl e)
  then show ?thesis by (simp add: start_fix_def read_csv_def Let_def)
next
  case (Inr data)
  then show ?thesis
    by (simp add: start_fix_def read_csv_def request_approval_def Let_def)
qed

text \<open>
  C7.  The claim: the run ends with code 2 when the version of \<open>mistapi\<close> is below the
  required minimum, 0.53.0.  \<open>check_mistapi_version\<close> compares the two version strings as
  strings.  Release 0.6.0 is below 0.53.0; as a string it is not smaller (\<open>6\<close> comes
  after \<open>5\<close>), so the check logs the version and lets the run go on: a run with this
  version and no option does not end with code 2.
\<close>

theorem check_mistapi_version_string_order:
  "below_minimum ''0.6.0'' \<and>
   check_mistapi_version ''0.6.0'' =
     ([Logger_info
         ''mistapi package version 0.53.0 is required, you are currently using version 0.6.0.''],
      None) \<and>
   snd (main_fix True ''0.6.0'' (Inr []) DictReader open_file api answer) \<noteq> Exit 2"
proof -
  have v: "check_mistapi_version ''0.6.0'' =
     ([Logger_info
         ''mistapi package version 0.53.0 is required, you are currently using version 0.6.0.''],
      None)"
    by (simp add: check_mistapi_version_def MISTAPI_MIN_VERSION_def)
  have b: "below_minimum ''0.6.0''"
    by (simp add: below_minimum_def MISTAPI_MIN_VERSION_def)
  have "snd (main_fix True ''0.6.0'' (Inr []) DictReader open_file api answer) =
      snd (start_fix DictReader open_file api answer (opt_site_id default_options)
        (opt_csv_file default_options) (opt_auto_approve default_options))"
    by (simp add: main_fix_def v split: prod.splits)
  with start_fix_outcome v b show ?thesis by simp
qed

subsection \<open>C8: one row per module, in device order\<close>

lemma dict_get_default_truthy:
  "truthy (dict_get c k) \<Longrightarrow> dict_get_default c k dflt = dict_get c k"
  by (cases "map_of c k") (simp_all add: dict_get_def dict_get_default_def)

lemma module_ok_iff: "module_ok v = (\<exists>m rest. v = JList (JDict m # rest))"
proof (cases v)
  case (JList xs)
  show ?thesis
  proof (cases xs)
    case Nil
    with JList show ?thesis by (simp add: module_ok_def)
  next
    case (Cons x rest)
    with JList show ?thesis by (cases x) (simp_all add: module_ok_def)
  qed
qed (simp_all add: module_ok_def)

lemma subscript0_dict_iff: "(\<exists>m. subscript0 v = Inr (JDict m)) = module_ok v"
proof (cases v rule: subscript0.cases)
  case (2 x xs)
  then show ?thesis by (cases x) (simp_all add: module_ok_def)
qed (simp_all add: module_ok_def)

lemma cluster_module_ok:
  "module_ok v \<Longrightarrow> cluster_module c v data = Inr (data @ module_rows c v)"
  by (auto simp: module_ok_iff module_rows_def process_module_def cluster_module_def)

lemma cluster_module_fail:
  assumes "\<not> module_ok v"
  shows "\<exists>e. cluster_module c v data = Inl e"
proof (cases "subscript0 v")
  case (Inl e)
  then show ?thesis by (simp add: cluster_module_def)
next
  case (Inr module)
  with assms have "\<not> (\<exists>m. module = JDict m)"
    using subscript0_dict_iff [of v] by auto
  then show ?thesis
    using Inr by (cases module) (simp_all add: process_module_def cluster_module_def)
qed

lemma process_cluster_well_formed:
  assumes "well_formed g"
  shows "process_cluster g data = Inr (data @ cluster_rows g)"
proof -
  from assms obtain c where g: "g = JDict c"
    by (cases g) (simp_all add: well_formed_def)
  let ?v1 = "dict_get_default c ''module_stat'' (JList [JDict []])"
  from assms g have ok1: "module_ok ?v1" by (simp add: well_formed_def)
  show ?thesis
  proof (cases "truthy (dict_get c ''module2_stat'')")
    case False
    with g ok1 show ?thesis
      by (simp add: process_cluster_def cluster_rows_def cluster_module_ok)
  next
    case True
    with assms g have ok2: "module_ok (dict_get c ''module2_stat'')"
      by (simp add: well_formed_def)
    from True g ok1 ok2 show ?thesis
      by (simp add: process_cluster_def cluster_rows_def cluster_module_ok
          dict_get_default_truthy)
  qed
qed

text \<open>A device that is not well formed makes the loop body raise: the hypothesis of
  C8 excludes exactly the devices on which the script stops with a traceback.\<close>

lemma process_cluster_not_well_formed:
  assumes "\<not> well_formed g"
  shows "\<exists>e. process_cluster g data = Inl e"
proof (cases g)
  case (JDict c)
  let ?v1 = "dict_get_default c ''module_stat'' (JList [JDict []])"
  show ?thesis
  proof (cases "module_ok ?v1")
    case False
    from cluster_module_fail [OF False] obtain e where
      "cluster_module c ?v1 data = Inl e" by blast
    with JDict show ?thesis by (simp add: process_cluster_def)
  next
    case ok1: True
    from assms JDict ok1 have t: "truthy (dict_get c ''module2_stat'')"
      and nok: "\<not> module_ok (dict_get c ''module2_stat'')"
      by (auto simp: well_formed_def split: if_splits)
    from cluster_module_fail [OF nok] obtain e where
      "cluster_module c (dict_get c ''module2_stat'') (data @ module_rows c ?v1) = Inl e"
      by blast
    with JDict ok1 t show ?thesis
      by (simp add: process_cluster_def cluster_module_ok dict_get_default_truthy)
  qed
qed (simp_all add: process_cluster_def)

lemma process_gateways_loop_well_formed:
  "list_all well_formed gateways \<Longrightarrow>
   process_gateways_loop gateways data = Inr (data @ concat (map cluster_rows gateways))"
  by (induction gateways arbitrary: data) (simp_all add: process_cluster_well_formed)

lemma length_module_rows: "module_ok v \<Longrightarrow> length (module_rows c v) = 1"
  by (auto simp: module_ok_iff module_rows_def)

lemma length_cluster_rows:
  assumes "well_formed g"
  shows "length (cluster_rows g) = (if has_module2 g then 2 else 1)"
proof -
  from assms obtain c where g: "g = JDict c"
    by (cases g) (simp_all add: well_formed_def)
  from assms g show ?thesis
    by (auto simp: well_formed_def cluster_rows_def has_module2_def length_module_rows
        split: if_splits)
qed

text \<open>
  C8.  When \<open>_process_gateways\<close> gets through every device (each is well formed), it
  returns the rows of the devices one device after the other, in the order of the
  devices; the rows of a device are the row of its primary module followed, if and only
  if \<open>module2_stat\<close> is truthy, by the row of its second module: one row, or two for a
  device with a second module.
\<close>

theorem process_gateways_rows:
  assumes "list_all well_formed gateways"
  shows "process_gateways gateways = Inr (concat (map cluster_rows gateways)) \<and>
         list_all (\<lambda>g. length (cluster_rows g) = (if has_module2 g then 2 else 1)) gateways \<and>
         list_all (\<lambda>g. \<exists>c. g = JDict c \<and>
            cluster_rows g =
              module_rows c (dict_get_default c ''module_stat'' (JList [JDict []])) @
              (if has_module2 g then module_rows c (dict_get c ''module2_stat'') else []) \<and>
            length (module_rows c (dict_get_default c ''module_stat'' (JList [JDict []]))) = 1)
           gateways"
proof (intro conjI)
  show "process_gateways gateways = Inr (concat (map cluster_rows gateways))"
    using assms by (simp add: process_gateways_def process_gateways_loop_well_formed)
  show "list_all (\<lambda>g. length (cluster_rows g) = (if has_module2 g then 2 else 1)) gateways"
    using assms by (simp add: list_all_iff length_cluster_rows)
  have "\<exists>c. g = JDict c \<and>
            cluster_rows g =
              module_rows c (dict_get_default c ''module_stat'' (JList [JDict []])) @
              (if has_module2 g then module_rows c (dict_get c ''module2_stat'') else []) \<and>
            length (module_rows c (dict_get_default c ''module_stat'' (JList [JDict []]))) = 1"
    if "well_formed g" for g
  proof -
    from that obtain c where g: "g = JDict c"
      by (cases g) (simp_all add: well_formed_def)
    from that g have "module_ok (dict_get_default c ''module_stat'' (JList [JDict []]))"
      by (simp add: well_formed_def)
    with g show ?thesis
      by (simp add: cluster_rows_def has_module2_def length_module_rows)
  qed
  with assms show "list_all (\<lambda>g. \<exists>c. g = JDict c \<and>
            cluster_rows g =
              module_rows c (dict_get_default c ''module_stat'' (JList [JDict []])) @
              (if has_module2 g then module_rows c (dict_get c ''module2_stat'') else []) \<and>
            length (module_rows c (dict_get_default c ''module_stat'' (JList [JDict []]))) = 1)
           gateways"
    by (simp add: list_all_iff)
qed

theorem process_gateways_rows_witness:
  "list_all well_formed
     [JDict [(''name'', JStr ''gw1''),
             (''module_stat'', JList [JDict [(''serial'', JStr ''A'')]]),
             (''module2_stat'', JList [JDict [(''serial'', JStr ''B'')]])],
      JDict [(''name'', JStr ''gw2''),
             (''module_stat'', JList [JDict [(''serial'', JStr ''C'')]])]] \<and>
   (case process_gateways
      [JDict [(''name'', JStr ''gw1''),
              (''module_stat'', JList [JDict [(''serial'', JStr ''A'')]]),
              (''module2_stat'', JList [JDict [(''serial'', JStr ''B'')]])],
       JDict [(''name'', JStr ''gw2''),
              (''module_stat'', JList [JDict [(''serial'', JStr ''C'')]])]] of
      Inl e \<Rightarrow> False
    | Inr data \<Rightarrow>
        map (\<lambda>r. (map_of r ''cluster_name'', map_of r ''module_serial'')) data =
          [(Some (JStr ''gw1''), Some (JStr ''A'')),
           (Some (JStr ''gw1''), Some (JStr ''B'')),
           (Some (JStr ''gw2''), Some (JStr ''C''))])"
proof -
  let ?G = "[JDict [(''name'', JStr ''gw1''),
             (''module_stat'', JList [JDict [(''serial'', JStr ''A'')]]),
             (''module2_stat'', JList [JDict [(''serial'', JStr ''B'')]])],
      JDict [(''name'', JStr ''gw2''),
             (''module_stat'', JList [JDict [(''serial'', JStr ''C'')]])]]"
  have wf: "list_all well_formed ?G"
    by (simp add: well_formed_def module_ok_def dict_get_def dict_get_default_def)
  have rows: "map (\<lambda>r. (map_of r ''cluster_name'', map_of r ''module_serial''))
      (concat (map cluster_rows ?G)) =
          [(Some (JStr ''gw1''), Some (JStr ''A'')),
           (Some (JStr ''gw1''), Some (JStr ''B'')),
           (Some (JStr ''gw2''), Some (JStr ''C''))]"
    by (simp add: cluster_rows_def module_rows_def module_row_def dict_get_def
        dict_get_default_def)
  from process_gateways_rows [OF wf] have
    "process_gateways ?G = Inr (concat (map cluster_rows ?G))" by blast
  with wf rows show ?thesis by simp
qed

subsection \<open>C9: the format of the report, and reading it back\<close>

lemma remdups_drop_later: "k \<in> set ys \<Longrightarrow> remdups (xs @ k # ys) = remdups (xs @ ys)"
  by (induction xs) auto

lemma remdups_append_remdups: "remdups (xs @ remdups ys) = remdups (xs @ ys)"
  by (induction xs) auto

lemma add_keys_first_seen:
  "distinct headers \<Longrightarrow> add_keys keys headers = rev (remdups (rev (headers @ keys)))"
proof (induction keys arbitrary: headers)
  case Nil
  then show ?case by (simp add: distinct_remdups_id)
next
  case (Cons k ks)
  show ?case
  proof (cases "k \<in> set headers")
    case True
    then have "remdups (rev ks @ k # rev headers) = remdups (rev ks @ rev headers)"
      by (intro remdups_drop_later) simp
    with True Cons show ?thesis by simp
  next
    case False
    with Cons.prems have "distinct (headers @ [k])" by simp
    from Cons.IH [OF this] False show ?thesis by simp
  qed
qed

lemma collect_headers_first_seen:
  "distinct headers \<Longrightarrow>
   collect_headers data headers = rev (remdups (rev (headers @ concat (map (map fst) data))))"
proof (induction data arbitrary: headers)
  case Nil
  then show ?case by (simp add: distinct_remdups_id)
next
  case (Cons entry rest)
  let ?h = "add_keys (map fst entry) headers"
  let ?r = "concat (map (map fst) rest)"
  have h: "?h = rev (remdups (rev (headers @ map fst entry)))"
    by (rule add_keys_first_seen [OF Cons.prems])
  then have "distinct ?h" by simp
  from Cons.IH [OF this]
  have "collect_headers (entry # rest) headers = rev (remdups (rev (?h @ ?r)))" by simp
  also have "\<dots> = rev (remdups (rev ?r @ remdups (rev (headers @ map fst entry))))"
    unfolding h by simp
  also have "\<dots> = rev (remdups (rev ?r @ rev (headers @ map fst entry)))"
    by (simp only: remdups_append_remdups)
  finally show ?case by simp
qed

lemma write_entries_concat:
  "write_entries py_str headers data f =
   f @ concat (map (\<lambda>entry. writerow py_str (entry_cells headers entry)) data)"
  by (induction data arbitrary: f) simp_all

lemma py_lines_first:
  "\<not> list_ex (\<lambda>ch. ch = CHR 0x0D \<or> ch = CHR 0x0A) s \<Longrightarrow>
   py_lines cur (s @ CHR 0x0D # CHR 0x0A # rest) =
     (cur @ s @ [CHR 0x0D, CHR 0x0A]) # py_lines [] rest"
  by (induction s arbitrary: cur) simp_all

lemma writerow_comment:
  assumes "\<not> list_ex csv_special scope" and "\<not> list_ex csv_special scope_id"
  shows "writerow py_str [JStr (''#Gateways Firmware Backup for '' @ scope @ '' '' @ scope_id)] =
     ''#Gateways Firmware Backup for '' @ scope @ '' '' @ scope_id @ [CHR 0x0D, CHR 0x0A]"
proof -
  have "\<not> list_ex csv_special (''#Gateways Firmware Backup for '' @ scope @ '' '' @ scope_id)"
    using assms by (simp add: csv_special_def)
  then show ?thesis
    by (simp add: writerow_def field_text_def csv_field_def)
qed

text \<open>
  C9.  With a scope and a scope id free of commas, double quotes and line ends (the
  scope is \<open>org\<close> or \<open>site\<close>, the id an identifier of the service), the file that
  \<open>_save_as_csv\<close> writes is: the line \<open>#Gateways Firmware Backup for <scope> <id>\<close>;
  the header row, whose cells are the keys of all the rows in first-seen order, each
  once; and for each row of the data, in order, one CSV row whose cells are the row's
  values under the headers, the empty string for a key the row lacks.  Reading the file
  back, the Backup Trigger's filter drops the first line: what the CSV reader gets is
  what it gets from the rest of the file.
\<close>

theorem save_as_csv_format:
  assumes "\<not> list_ex csv_special scope" and "\<not> list_ex csv_special scope_id"
  shows "save_as_csv py_str data scope scope_id =
           (''#Gateways Firmware Backup for '' @ scope @ '' '' @ scope_id @ [CHR 0x0D, CHR 0x0A]) @
           writerow py_str (map JStr (collect_headers data [])) @
           concat (map (\<lambda>entry. writerow py_str
             (map (\<lambda>header. dict_get_default entry header (JStr [])) (collect_headers data [])))
             data) \<and>
         collect_headers data [] = rev (remdups (rev (concat (map (map fst) data)))) \<and>
         set (collect_headers data []) = set (concat (map (map fst) data)) \<and>
         distinct (collect_headers data []) \<and>
         file_lines (save_as_csv py_str data scope scope_id) =
           (''#Gateways Firmware Backup for '' @ scope @ '' '' @ scope_id @ [CHR 0x0D, CHR 0x0A]) #
           file_lines (writerow py_str (map JStr (collect_headers data [])) @
             concat (map (\<lambda>entry. writerow py_str
               (map (\<lambda>header. dict_get_default entry header (JStr [])) (collect_headers data [])))
               data)) \<and>
         filter_lines (file_lines (save_as_csv py_str data scope scope_id)) =
           filter_lines (file_lines (writerow py_str (map JStr (collect_headers data [])) @
             concat (map (\<lambda>entry. writerow py_str
               (map (\<lambda>header. dict_get_default entry header (JStr [])) (collect_headers data [])))
               data)))"
proof -
  let ?c = "''#Gateways Firmware Backup for '' @ scope @ '' '' @ scope_id"
  let ?rest = "writerow py_str (map JStr (collect_headers data [])) @
           concat (map (\<lambda>entry. writerow py_str
             (map (\<lambda>header. dict_get_default entry header (JStr [])) (collect_headers data [])))
             data)"
  have content: "save_as_csv py_str data scope scope_id = (?c @ [CHR 0x0D, CHR 0x0A]) @ ?rest"
    using writerow_comment [OF assms, of py_str]
    by (simp add: save_as_csv_def Let_def write_entries_concat entry_cells_def)
  have order: "collect_headers data [] = rev (remdups (rev (concat (map (map fst) data))))"
    using collect_headers_first_seen [of "[]" data] by simp
  have plain: "\<not> list_ex (\<lambda>ch. ch = CHR 0x0D \<or> ch = CHR 0x0A) ?c"
    using assms by (auto simp: csv_special_def list_ex_iff)
  have lines: "file_lines (save_as_csv py_str data scope scope_id) =
      (?c @ [CHR 0x0D, CHR 0x0A]) # file_lines ?rest"
    unfolding content file_lines_def
    using py_lines_first [OF plain, of "[]" ?rest] by simp
  have "not_comment (?c @ [CHR 0x0D, CHR 0x0A]) = Inr False"
    by (simp add: not_comment_def)
  then have skip: "filter_lines (file_lines (save_as_csv py_str data scope scope_id)) =
      filter_lines (file_lines ?rest)"
    unfolding lines by (simp split: sum.splits)
  from content order lines skip show ?thesis
    unfolding order by (simp del: append_assoc)
qed

theorem save_as_csv_format_witness:
  "\<not> list_ex csv_special ''org'' \<and> \<not> list_ex csv_special ''1234'' \<and>
   save_as_csv (\<lambda>v. ''?'')
     [[(''a'', JStr ''x''), (''b'', JBool True)], [(''c'', JNull), (''a'', JStr ''q'')]]
     ''org'' ''1234'' =
   ''#Gateways Firmware Backup for org 1234'' @ [CHR 0x0D, CHR 0x0A] @
   ''a,b,c'' @ [CHR 0x0D, CHR 0x0A] @
   ''x,True,'' @ [CHR 0x0D, CHR 0x0A] @
   ''q,,'' @ [CHR 0x0D, CHR 0x0A] \<and>
   filter_lines (file_lines (save_as_csv (\<lambda>v. ''?'')
     [[(''a'', JStr ''x''), (''b'', JBool True)], [(''c'', JNull), (''a'', JStr ''q'')]]
     ''org'' ''1234'')) =
   Inr [''a,b,c'' @ [CHR 0x0D, CHR 0x0A], ''x,True,'' @ [CHR 0x0D, CHR 0x0A],
        ''q,,'' @ [CHR 0x0D, CHR 0x0A]]"
proof -
  let ?data = "[[(''a'', JStr ''x''), (''b'', JBool True)], [(''c'', JNull), (''a'', JStr ''q'')]]"
  have s1: "\<not> list_ex csv_special ''org''" by (simp add: csv_special_def)
  have s2: "\<not> list_ex csv_special ''1234''" by (simp add: csv_special_def)
  have h: "collect_headers ?data [] = [''a'', ''b'', ''c'']" by simp
  have r: "writerow (\<lambda>v. ''?'') (map JStr [''a'', ''b'', ''c'']) @
      concat (map (\<lambda>entry. writerow (\<lambda>v. ''?'')
        (map (\<lambda>header. dict_get_default entry header (JStr [])) [''a'', ''b'', ''c''])) ?data) =
      ''a,b,c'' @ [CHR 0x0D, CHR 0x0A] @ ''x,True,'' @ [CHR 0x0D, CHR 0x0A] @
      ''q,,'' @ [CHR 0x0D, CHR 0x0A]"
    by (simp add: writerow_def field_text_def csv_field_def csv_special_def
        dict_get_default_def)
  have l: "filter_lines (file_lines (''a,b,c'' @ [CHR 0x0D, CHR 0x0A] @ ''x,True,'' @
      [CHR 0x0D, CHR 0x0A] @ ''q,,'' @ [CHR 0x0D, CHR 0x0A])) =
    Inr [''a,b,c'' @ [CHR 0x0D, CHR 0x0A], ''x,True,'' @ [CHR 0x0D, CHR 0x0A],
        ''q,,'' @ [CHR 0x0D, CHR 0x0A]]"
    by (simp add: file_lines_def not_comment_def)
  note t = save_as_csv_format [OF s1 s2, of "\<lambda>v. ''?''" ?data]
  from t have a: "save_as_csv (\<lambda>v. ''?'') ?data ''org'' ''1234'' =
     (''#Gateways Firmware Backup for '' @ ''org'' @ '' '' @ ''1234'' @ [CHR 0x0D, CHR 0x0A]) @
           writerow (\<lambda>v. ''?'') (map JStr (collect_headers ?data [])) @
           concat (map (\<lambda>entry. writerow (\<lambda>v. ''?'')
             (map (\<lambda>header. dict_get_default entry header (JStr [])) (collect_headers ?data [])))
             ?data)" by (rule conjunct1)
  from t have b: "filter_lines (file_lines (save_as_csv (\<lambda>v. ''?'') ?data ''org'' ''1234'')) =
           filter_lines (file_lines (writerow (\<lambda>v. ''?'') (map JStr (collect_headers ?data [])) @
             concat (map (\<lambda>entry. writerow (\<lambda>v. ''?'')
               (map (\<lambda>header. dict_get_default entry header (JStr [])) (collect_headers ?data [])))
               ?data)))" by blast
  have a': "save_as_csv (\<lambda>v. ''?'') ?data ''org'' ''1234'' =
   ''#Gateways Firmware Backup for org 1234'' @ [CHR 0x0D, CHR 0x0A] @
   ''a,b,c'' @ [CHR 0x0D, CHR 0x0A] @ ''x,True,'' @ [CHR 0x0D, CHR 0x0A] @
   ''q,,'' @ [CHR 0x0D, CHR 0x0A]"
    unfolding a h r by simp
  have b': "filter_lines (file_lines (save_as_csv (\<lambda>v. ''?'') ?data ''org'' ''1234'')) =
    Inr [''a,b,c'' @ [CHR 0x0D, CHR 0x0A], ''x,True,'' @ [CHR 0x0D, CHR 0x0A],
        ''q,,'' @ [CHR 0x0D, CHR 0x0A]]"
    unfolding b h r l by (rule refl)
  from s1 s2 a' b' show ?thesis by blast
qed

text \<open>The hypothesis on the scope id is needed: \<open>csv.writer\<close> quotes a comment that
  holds a comma, and the line then starts with a double quote.\<close>

lemma writerow_comment_quoted:
  "writerow py_str [JStr (''#Gateways Firmware Backup for '' @ ''org'' @ '' '' @ ''a,b'')] =
   [CHR 0x22] @ ''#Gateways Firmware Backup for org a,b'' @ [CHR 0x22, CHR 0x0D, CHR 0x0A]"
  by (simp add: writerow_def field_text_def csv_field_def csv_special_def)

subsection \<open>C10: a device without module_stat, a device with an empty module_stat\<close>

text \<open>
  The claim, as stated, gives a device that lacks \<open>module_stat\<close> exactly one row with
  these values.  The loop body tests \<open>module2_stat\<close> whatever \<open>module_stat\<close> was: a
  device that lacks \<open>module_stat\<close> and has a second module gets two rows, and when the
  second module reports none of the fields both rows have these values.
\<close>

theorem missing_module_stat_two_rows:
  "map_of [(''id'', JStr ''d1''), (''module2_stat'', JList [JDict []])] ''module_stat'' = None \<and>
   process_gateways [JDict [(''id'', JStr ''d1''), (''module2_stat'', JList [JDict []])]] =
   Inr [[(''cluster_name'', JNull), (''cluster_version'', JNull),
         (''cluster_device_id'', JStr ''d1''), (''cluster_site_id'', JNull),
         (''module_serial'', JNull), (''module_mac'', JNull), (''module_model'', JNull),
         (''module_version'', JNull), (''module_backup_version'', JNull),
         (''module_need_snapshot'', JBool False),
         (''module_pending_version'', JNull),
         (''module_need_reboot'', JBool False)],
        [(''cluster_name'', JNull), (''cluster_version'', JNull),
         (''cluster_device_id'', JStr ''d1''), (''cluster_site_id'', JNull),
         (''module_serial'', JNull), (''module_mac'', JNull), (''module_model'', JNull),
         (''module_version'', JNull), (''module_backup_version'', JNull),
         (''module_need_snapshot'', JBool False),
         (''module_pending_version'', JNull),
         (''module_need_reboot'', JBool False)]]"
  by (simp add: process_gateways_def process_cluster_def cluster_module_def
      process_module_def module_row_def dict_get_def dict_get_default_def)

text \<open>
  C10, amended.  For a device that lacks the \<open>module_stat\<close> key, the call for the
  primary module emits exactly one row, in which \<open>module_serial\<close>, \<open>module_mac\<close>,
  \<open>module_model\<close>, \<open>module_version\<close>, \<open>module_backup_version\<close> and
  \<open>module_pending_version\<close> are \<open>None\<close> and both flags are \<open>False\<close>.  It is the only
  row of the device when \<open>module2_stat\<close> is falsy.  When \<open>module2_stat\<close> is a list that
  starts with a dict, the device has two rows: that row, then the row of the second
  module.  When \<open>module2_stat\<close> is truthy and anything else, the loop body raises and
  returns no row.  For a device whose \<open>module_stat\<close> is the empty list, the loop body
  raises \<open>IndexError\<close> and emits nothing.
\<close>

theorem missing_module_stat_row:
  "(map_of c ''module_stat'' = None \<longrightarrow>
      cluster_module c (dict_get_default c ''module_stat'' (JList [JDict []])) data =
        Inr (data @ [[(''cluster_name'', dict_get c ''name''),
          (''cluster_version'', dict_get c ''version''),
          (''cluster_device_id'', dict_get c ''id''),
          (''cluster_site_id'', dict_get c ''site_id''),
          (''module_serial'', JNull), (''module_mac'', JNull), (''module_model'', JNull),
          (''module_version'', JNull), (''module_backup_version'', JNull),
          (''module_need_snapshot'', JBool False),
          (''module_pending_version'', JNull),
          (''module_need_reboot'', JBool False)]]) \<and>
      (\<not> truthy (dict_get c ''module2_stat'') \<longrightarrow>
         process_cluster (JDict c) data =
           cluster_module c (dict_get_default c ''module_stat'' (JList [JDict []])) data) \<and>
      (dict_get c ''module2_stat'' = JList (JDict m2 # others) \<longrightarrow>
         process_cluster (JDict c) data =
           Inr (data @ [[(''cluster_name'', dict_get c ''name''),
          (''cluster_version'', dict_get c ''version''),
          (''cluster_device_id'', dict_get c ''id''),
          (''cluster_site_id'', dict_get c ''site_id''),
          (''module_serial'', JNull), (''module_mac'', JNull), (''module_model'', JNull),
          (''module_version'', JNull), (''module_backup_version'', JNull),
          (''module_need_snapshot'', JBool False),
          (''module_pending_version'', JNull),
          (''module_need_reboot'', JBool False)],
             module_row (dict_get c ''name'') (dict_get c ''version'') (dict_get c ''id'')
               (dict_get c ''site_id'') m2])) \<and>
      (truthy (dict_get c ''module2_stat'') \<and> \<not> module_ok (dict_get c ''module2_stat'') \<longrightarrow>
         (\<exists>e. process_cluster (JDict c) data = Inl e))) \<and>
   (map_of c' ''module_stat'' = Some (JList []) \<longrightarrow>
      process_cluster (JDict c') data = Inl IndexError)"
proof (intro conjI impI)
  assume absent: "map_of c ''module_stat'' = None"
  then have v: "dict_get_default c ''module_stat'' (JList [JDict []]) = JList [JDict []]"
    by (simp add: dict_get_default_def)
  show r: "cluster_module c (dict_get_default c ''module_stat'' (JList [JDict []])) data =
        Inr (data @ [[(''cluster_name'', dict_get c ''name''),
          (''cluster_version'', dict_get c ''version''),
          (''cluster_device_id'', dict_get c ''id''),
          (''cluster_site_id'', dict_get c ''site_id''),
          (''module_serial'', JNull), (''module_mac'', JNull), (''module_model'', JNull),
          (''module_version'', JNull), (''module_backup_version'', JNull),
          (''module_need_snapshot'', JBool False),
          (''module_pending_version'', JNull),
          (''module_need_reboot'', JBool False)]])"
    unfolding v
    by (simp add: cluster_module_def process_module_def module_row_def dict_get_def
        dict_get_default_def)
  show "process_cluster (JDict c) data =
      cluster_module c (dict_get_default c ''module_stat'' (JList [JDict []])) data"
    if "\<not> truthy (dict_get c ''module2_stat'')"
    using that unfolding r by (simp add: process_cluster_def r)
  show "process_cluster (JDict c) data =
      Inr (data @ [[(''cluster_name'', dict_get c ''name''),
          (''cluster_version'', dict_get c ''version''),
          (''cluster_device_id'', dict_get c ''id''),
          (''cluster_site_id'', dict_get c ''site_id''),
          (''module_serial'', JNull), (''module_mac'', JNull), (''module_model'', JNull),
          (''module_version'', JNull), (''module_backup_version'', JNull),
          (''module_need_snapshot'', JBool False),
          (''module_pending_version'', JNull),
          (''module_need_reboot'', JBool False)],
        module_row (dict_get c ''name'') (dict_get c ''version'') (dict_get c ''id'')
          (dict_get c ''site_id'') m2])"
    if m: "dict_get c ''module2_stat'' = JList (JDict m2 # others)"
  proof -
    from m have t: "truthy (dict_get c ''module2_stat'')" by simp
    have d: "dict_get_default c ''module2_stat'' (JList [JDict []]) = JList (JDict m2 # others)"
      using dict_get_default_truthy [OF t] m by simp
    have "process_cluster (JDict c) data =
        cluster_module c (JList (JDict m2 # others)) (data @ [[(''cluster_name'', dict_get c ''name''),
          (''cluster_version'', dict_get c ''version''),
          (''cluster_device_id'', dict_get c ''id''),
          (''cluster_site_id'', dict_get c ''site_id''),
          (''module_serial'', JNull), (''module_mac'', JNull), (''module_model'', JNull),
          (''module_version'', JNull), (''module_backup_version'', JNull),
          (''module_need_snapshot'', JBool False),
          (''module_pending_version'', JNull),
          (''module_need_reboot'', JBool False)]])"
      using t by (simp add: process_cluster_def r d)
    then show ?thesis
      by (simp add: cluster_module_def process_module_def)
  qed
  show "\<exists>e. process_cluster (JDict c) data = Inl e"
    if b: "truthy (dict_get c ''module2_stat'') \<and> \<not> module_ok (dict_get c ''module2_stat'')"
  proof -
    from b have t: "truthy (dict_get c ''module2_stat'')"
      and n: "\<not> module_ok (dict_get c ''module2_stat'')" by simp_all
    have "process_cluster (JDict c) data =
        cluster_module c (dict_get c ''module2_stat'') (data @ [[(''cluster_name'', dict_get c ''name''),
          (''cluster_version'', dict_get c ''version''),
          (''cluster_device_id'', dict_get c ''id''),
          (''cluster_site_id'', dict_get c ''site_id''),
          (''module_serial'', JNull), (''module_mac'', JNull), (''module_model'', JNull),
          (''module_version'', JNull), (''module_backup_version'', JNull),
          (''module_need_snapshot'', JBool False),
          (''module_pending_version'', JNull),
          (''module_need_reboot'', JBool False)]])"
      using t by (simp add: process_cluster_def r dict_get_default_truthy)
    with cluster_module_fail [OF n, of c "data @ [[(''cluster_name'', dict_get c ''name''),
          (''cluster_version'', dict_get c ''version''),
          (''cluster_device_id'', dict_get c ''id''),
          (''cluster_site_id'', dict_get c ''site_id''),
          (''module_serial'', JNull), (''module_mac'', JNull), (''module_model'', JNull),
          (''module_version'', JNull), (''module_backup_version'', JNull),
          (''module_need_snapshot'', JBool False),
          (''module_pending_version'', JNull),
          (''module_need_reboot'', JBool False)]]"] show ?thesis by simp
  qed
next
  assume "map_of c' ''module_stat'' = Some (JList [])"
  then have "dict_get_default c' ''module_stat'' (JList [JDict []]) = JList []"
    by (simp add: dict_get_default_def)
  then show "process_cluster (JDict c') data = Inl IndexError"
    by (simp add: process_cluster_def cluster_module_def)
qed

theorem missing_module_stat_row_witness:
  "map_of [(''id'', JStr ''d1'')] ''module_stat'' = None \<and>
   \<not> truthy (dict_get [(''id'', JStr ''d1'')] ''module2_stat'') \<and>
   process_cluster (JDict [(''id'', JStr ''d1'')]) [] = Inr [[(''cluster_name'', JNull), (''cluster_version'', JNull),
          (''cluster_device_id'', JStr ''d1''), (''cluster_site_id'', JNull),
          (''module_serial'', JNull), (''module_mac'', JNull), (''module_model'', JNull),
          (''module_version'', JNull), (''module_backup_version'', JNull),
          (''module_need_snapshot'', JBool False),
          (''module_pending_version'', JNull),
          (''module_need_reboot'', JBool False)]] \<and>
   map_of [(''id'', JStr ''d2''), (''module_stat'', JList [])] ''module_stat'' = Some (JList []) \<and>
   process_cluster (JDict [(''id'', JStr ''d2''), (''module_stat'', JList [])]) [] =
     Inl IndexError \<and>
   map_of [(''id'', JStr ''d3''), (''module2_stat'', JList [JDict [(''serial'', JStr ''S2'')]])]
     ''module_stat'' = None \<and>
   dict_get [(''id'', JStr ''d3''), (''module2_stat'', JList [JDict [(''serial'', JStr ''S2'')]])]
     ''module2_stat'' = JList (JDict [(''serial'', JStr ''S2'')] # []) \<and>
   process_cluster
     (JDict [(''id'', JStr ''d3''), (''module2_stat'', JList [JDict [(''serial'', JStr ''S2'')]])])
     [] = Inr [[(''cluster_name'', JNull), (''cluster_version'', JNull),
          (''cluster_device_id'', JStr ''d3''), (''cluster_site_id'', JNull),
          (''module_serial'', JNull), (''module_mac'', JNull), (''module_model'', JNull),
          (''module_version'', JNull), (''module_backup_version'', JNull),
          (''module_need_snapshot'', JBool False),
          (''module_pending_version'', JNull),
          (''module_need_reboot'', JBool False)], [(''cluster_name'', JNull), (''cluster_version'', JNull),
          (''cluster_device_id'', JStr ''d3''), (''cluster_site_id'', JNull),
          (''module_serial'', JStr ''S2''), (''module_mac'', JNull), (''module_model'', JNull),
          (''module_version'', JNull), (''module_backup_version'', JNull),
          (''module_need_snapshot'', JBool False),
          (''module_pending_version'', JNull),
          (''module_need_reboot'', JBool False)]] \<and>
   map_of [(''id'', JStr ''d4''), (''module2_stat'', JList [JNum 1])] ''module_stat'' = None \<and>
   truthy (dict_get [(''id'', JStr ''d4''), (''module2_stat'', JList [JNum 1])] ''module2_stat'') \<and>
   \<not> module_ok (dict_get [(''id'', JStr ''d4''), (''module2_stat'', JList [JNum 1])]
     ''module2_stat'') \<and>
   (\<exists>e. process_cluster (JDict [(''id'', JStr ''d4''), (''module2_stat'', JList [JNum 1])]) [] =
      Inl e)"
proof -
  let ?c1 = "[(''id'', JStr ''d1'')]"
  let ?c2 = "[(''id'', JStr ''d2''), (''module_stat'', JList [])]"
  let ?c3 = "[(''id'', JStr ''d3''), (''module2_stat'', JList [JDict [(''serial'', JStr ''S2'')]])]"
  let ?c4 = "[(''id'', JStr ''d4''), (''module2_stat'', JList [JNum 1])]"
  have a1: "map_of ?c1 ''module_stat'' = None" by simp
  have f1: "\<not> truthy (dict_get ?c1 ''module2_stat'')"
    by (simp add: dict_get_def dict_get_default_def)
  have e2: "map_of ?c2 ''module_stat'' = Some (JList [])" by simp
  have a3: "map_of ?c3 ''module_stat'' = None" by simp
  have m3: "dict_get ?c3 ''module2_stat'' = JList (JDict [(''serial'', JStr ''S2'')] # [])"
    by (simp add: dict_get_def dict_get_default_def)
  have a4: "map_of ?c4 ''module_stat'' = None" by simp
  have t4: "truthy (dict_get ?c4 ''module2_stat'')"
    by (simp add: dict_get_def dict_get_default_def)
  have n4: "\<not> module_ok (dict_get ?c4 ''module2_stat'')"
    by (simp add: dict_get_def dict_get_default_def module_ok_def)
  note t1 = missing_module_stat_row [of ?c1 "[]" _ _ ?c2]
  from t1 a1 f1 have "process_cluster (JDict ?c1) [] =
     Inr ([] @ [[(''cluster_name'', dict_get ?c1 ''name''),
          (''cluster_version'', dict_get ?c1 ''version''),
          (''cluster_device_id'', dict_get ?c1 ''id''),
          (''cluster_site_id'', dict_get ?c1 ''site_id''),
          (''module_serial'', JNull), (''module_mac'', JNull), (''module_model'', JNull),
          (''module_version'', JNull), (''module_backup_version'', JNull),
          (''module_need_snapshot'', JBool False),
          (''module_pending_version'', JNull),
          (''module_need_reboot'', JBool False)]])"
    by simp
  then have 1: "process_cluster (JDict ?c1) [] = Inr [[(''cluster_name'', JNull), (''cluster_version'', JNull),
          (''cluster_device_id'', JStr ''d1''), (''cluster_site_id'', JNull),
          (''module_serial'', JNull), (''module_mac'', JNull), (''module_model'', JNull),
          (''module_version'', JNull), (''module_backup_version'', JNull),
          (''module_need_snapshot'', JBool False),
          (''module_pending_version'', JNull),
          (''module_need_reboot'', JBool False)]]"
    by (simp add: dict_get_def dict_get_default_def)
  from t1 e2 have 2: "process_cluster (JDict ?c2) [] = Inl IndexError" by blast
  note t3 = missing_module_stat_row [of ?c3 "[]" "[(''serial'', JStr ''S2'')]" "[]" ?c2]
  from t3 a3 m3 have "process_cluster (JDict ?c3) [] =
     Inr ([] @ [[(''cluster_name'', dict_get ?c3 ''name''),
          (''cluster_version'', dict_get ?c3 ''version''),
          (''cluster_device_id'', dict_get ?c3 ''id''),
          (''cluster_site_id'', dict_get ?c3 ''site_id''),
          (''module_serial'', JNull), (''module_mac'', JNull), (''module_model'', JNull),
          (''module_version'', JNull), (''module_backup_version'', JNull),
          (''module_need_snapshot'', JBool False),
          (''module_pending_version'', JNull),
          (''module_need_reboot'', JBool False)],
         module_row (dict_get ?c3 ''name'') (dict_get ?c3 ''version'') (dict_get ?c3 ''id'')
           (dict_get ?c3 ''site_id'') [(''serial'', JStr ''S2'')]])"
    by blast
  then have 3: "process_cluster (JDict ?c3) [] = Inr [[(''cluster_name'', JNull), (''cluster_version'', JNull),
          (''cluster_device_id'', JStr ''d3''), (''cluster_site_id'', JNull),
          (''module_serial'', JNull), (''module_mac'', JNull), (''module_model'', JNull),
          (''module_version'', JNull), (''module_backup_version'', JNull),
          (''module_need_snapshot'', JBool False),
          (''module_pending_version'', JNull),
          (''module_need_reboot'', JBool False)], [(''cluster_name'', JNull), (''cluster_version'', JNull),
          (''cluster_device_id'', JStr ''d3''), (''cluster_site_id'', JNull),
          (''module_serial'', JStr ''S2''), (''module_mac'', JNull), (''module_model'', JNull),
          (''module_version'', JNull), (''module_backup_version'', JNull),
          (''module_need_snapshot'', JBool False),
          (''module_pending_version'', JNull),
          (''module_need_reboot'', JBool False)]]"
    by (simp add: module_row_def dict_get_def dict_get_default_def)
  note t4' = missing_module_stat_row [of ?c4 "[]" _ _ ?c2]
  from t4' a4 t4 n4 have 4: "\<exists>e. process_cluster (JDict ?c4) [] = Inl e" by blast
  from a1 f1 1 e2 2 a3 m3 3 a4 t4 n4 4 show ?thesis by blast
qed

end
